theory Spec2Isabelle
  imports Complex_Main "HOL-Library.Multiset" "HOL-Library.Sublist"
begin

section \<open>Errors\<close>

text \<open>
  The Python exceptions the modelled functions can raise, as values. A function that can
  raise returns \<open>error + 'a\<close>, with \<open>Inl\<close> for the exception.
  \<^item> \<open>MissingFeatures miss\<close> is the
    \<^verbatim>\<open>ValueError(f"Missing required features: {missing_features}")\<close> of
    \<^verbatim>\<open>FlowPreprocessor.prepare_features\<close>;
  \<^item> \<open>ValueError msg\<close> is any other \<^verbatim>\<open>ValueError\<close> (raised by numpy, pandas or
    scikit-learn);
  \<^item> \<open>KeyError c\<close> is the lookup of an absent column \<open>c\<close> in a frame;
  \<^item> \<open>TypeError\<close> is an arithmetic operation applied to a string cell;
  \<^item> \<open>ZeroDivisionError\<close> is the division of two Python integers by zero;
  \<^item> \<open>AssertionError\<close> is a failed \<^verbatim>\<open>assert\<close>.
\<close>

datatype error =
    MissingFeatures "string list"
  | ValueError string
  | KeyError string
  | TypeError
  | ZeroDivisionError
  | AssertionError

section \<open>The evaluator: \<^verbatim>\<open>compute_metrics\<close> (scripts/train\_nsl\_kdd.py)\<close>

text \<open>
  The frozen dataclass \<^verbatim>\<open>Metrics\<close>. Python floats are modelled as exact reals: every
  float the function makes is a quotient of counts guarded by its denominator, so no NaN
  and no infinity can arise.
\<close>

record metrics =
  tp :: int
  fp :: int
  tn :: int
  fn :: int
  precision :: real
  recall :: real
  f1 :: real
  true_positive_rate :: real
  false_positive_rate :: real

text \<open>
  The element-wise operators \<^verbatim>\<open>==\<close> and \<^verbatim>\<open>&\<close> of numpy pair the two one-dimensional
  arrays position by position. Arrays of different lengths are broadcast when one of them
  has length one, and raise \<^verbatim>\<open>ValueError\<close> otherwise.
\<close>

definition broadcast :: "int list \<Rightarrow> int list \<Rightarrow> error + (int \<times> int) list" where
  "broadcast xs ys =
     (if length xs = length ys then Inr (zip xs ys)
      else if length xs = 1 then Inr (map (\<lambda>y. (hd xs, y)) ys)
      else if length ys = 1 then Inr (map (\<lambda>x. (x, hd ys)) xs)
      else Inl (ValueError ''operands could not be broadcast together''))"

text \<open>\<^verbatim>\<open>int(((y_true_attack == a) & (y_pred_attack == b)).sum())\<close>\<close>

definition count_cell :: "int \<Rightarrow> int \<Rightarrow> (int \<times> int) list \<Rightarrow> int" where
  "count_cell a b ps = int (length (filter (\<lambda>(t, p). t = a \<and> p = b) ps))"

definition metrics_of_counts :: "int \<Rightarrow> int \<Rightarrow> int \<Rightarrow> int \<Rightarrow> metrics" where
  "metrics_of_counts tp' tn' fp' fn' =
     (let precision' = (if tp' + fp' \<noteq> 0 then real_of_int tp' / real_of_int (tp' + fp') else 0);
          recall' = (if tp' + fn' \<noteq> 0 then real_of_int tp' / real_of_int (tp' + fn') else 0);
          f1' = (if precision' + recall' \<noteq> 0
                 then 2 * precision' * recall' / (precision' + recall') else 0);
          tpr = recall';
          fpr = (if fp' + tn' \<noteq> 0 then real_of_int fp' / real_of_int (fp' + tn') else 0)
      in \<lparr>tp = tp', fp = fp', tn = tn', fn = fn',
          precision = precision', recall = recall', f1 = f1',
          true_positive_rate = tpr, false_positive_rate = fpr\<rparr>)"

definition compute_metrics :: "int list \<Rightarrow> int list \<Rightarrow> error + metrics" where
  "compute_metrics y_true_attack y_pred_attack =
     (case broadcast y_true_attack y_pred_attack of
        Inl e \<Rightarrow> Inl e
      | Inr ps \<Rightarrow>
          Inr (metrics_of_counts (count_cell 1 1 ps) (count_cell 0 0 ps)
                 (count_cell 0 1 ps) (count_cell 1 0 ps)))"

text \<open>
  \<^verbatim>\<open>y[idx]\<close>: numpy indexing of an array by an array of positions. A permutation of the
  rows is an \<open>idx\<close> that lists every position \<open>0..<n\<close> exactly once.
\<close>

definition take_rows :: "'a list \<Rightarrow> nat list \<Rightarrow> 'a list" where
  "take_rows ys idx = map (\<lambda>i. ys ! i) idx"

definition is_permutation :: "nat list \<Rightarrow> nat \<Rightarrow> bool" where
  "is_permutation idx n \<longleftrightarrow> mset idx = mset [0..<n]"

section \<open>Data frames\<close>

text \<open>
  A pandas \<^verbatim>\<open>DataFrame\<close>: the named, typed columns in their order, and the rows. A cell is
  a number, a string or the missing value NaN; numbers are modelled as exact reals. Of the
  dtypes only the three that the code distinguishes are modelled. A frame is well formed
  when every row has one cell per column; column names are looked up from the left, so a
  frame with a repeated name behaves as if only its first column of that name existed.
\<close>

datatype cell = Num real | Str string | NaN

datatype dtype = Int64 | Float64 | Object

record frame =
  columns :: "(string \<times> dtype) list"
  rows :: "cell list list"


text \<open>\<^verbatim>\<open>len(df)\<close>\<close>

definition len :: "frame \<Rightarrow> nat" where
  "len df = length (rows df)"

fun index_of :: "'a list \<Rightarrow> 'a \<Rightarrow> nat option" where
  "index_of [] x = None"
| "index_of (y # ys) x = (if x = y then Some 0 else map_option Suc (index_of ys x))"

definition cell_at :: "cell list \<Rightarrow> nat \<Rightarrow> cell" where
  "cell_at r j = (if j < length r then r ! j else NaN)"


text \<open>\<^verbatim>\<open>df[c]\<close> for one column name: the cells of that column, or \<^verbatim>\<open>KeyError\<close>.\<close>

definition column_values :: "frame \<Rightarrow> string \<Rightarrow> error + cell list" where
  "column_values df c =
     (case index_of (map fst (columns df)) c of
        None \<Rightarrow> Inl (KeyError c)
      | Some j \<Rightarrow> Inr (map (\<lambda>r. cell_at r j) (rows df)))"

text \<open>
  \<^verbatim>\<open>df[cs]\<close> for a list of column names: the frame of those columns, in the order of
  \<open>cs\<close>; \<^verbatim>\<open>KeyError\<close> (here: of the first absent name) when one is absent.
\<close>

fun lookup_all :: "'a list \<Rightarrow> 'a list \<Rightarrow> 'a + nat list" where
  "lookup_all names [] = Inr []"
| "lookup_all names (c # cs) =
     (case index_of names c of
        None \<Rightarrow> Inl c
      | Some j \<Rightarrow> (case lookup_all names cs of Inl c' \<Rightarrow> Inl c' | Inr js \<Rightarrow> Inr (j # js)))"

definition select_columns :: "frame \<Rightarrow> string list \<Rightarrow> error + frame" where
  "select_columns df cs =
     (case lookup_all (map fst (columns df)) cs of
        Inl c \<Rightarrow> Inl (KeyError c)
      | Inr js \<Rightarrow>
          Inr \<lparr>columns = map (\<lambda>j. columns df ! j) js,
               rows = map (\<lambda>r. map (cell_at r) js) (rows df)\<rparr>)"

section \<open>The tuner: \<^verbatim>\<open>tune_iforest\<close> (scripts/train\_nsl\_kdd.py)\<close>

text \<open>
  The numpy and scikit-learn operations that \<^verbatim>\<open>make_X\<close> and \<^verbatim>\<open>tune_iforest\<close> call are
  not part of the program: they are the fields of a record, over an abstract type \<open>'x\<close> of
  float matrices, \<open>'s\<close> of fitted scalers and \<open>'m\<close> of fitted forests. Each may raise.
  A value of the record is the library in one run of the program: besides the operations
  it holds \<open>ambient\<close>, the state of the process (of type \<open>'w\<close>: numpy's global random
  generator, the entropy of the system) from which a forest that is given no seed draws
  its randomness. The other operations are functions of their arguments.
  \<^item> \<open>to_numpy_float rs\<close>: \<^verbatim>\<open>.to_numpy(dtype=float)\<close> of the selected rows;
  \<^item> \<open>log1p X\<close>: \<^verbatim>\<open>np.log1p(X)\<close>;
  \<^item> \<open>to_numpy_int cs\<close>: \<^verbatim>\<open>.to_numpy(dtype=int)\<close> of a column;
  \<^item> \<open>fit_transform X\<close>: \<^verbatim>\<open>scaler = StandardScaler(); scaler.fit_transform(X)\<close>, the fitted
    scaler and the transformed matrix;
  \<^item> \<open>transform s X\<close>: \<^verbatim>\<open>scaler.transform(X)\<close>;
  \<^item> \<open>forest_fit w n c seed X\<close>: \<^verbatim>\<open>IsolationForest(n_estimators=n, contamination=c,
    random_state=seed, n_jobs=1)\<close> fitted on \<open>X\<close> in the ambient state \<open>w\<close>, where the seed
    \<open>None\<close> is \<^verbatim>\<open>random_state=None\<close> and \<open>Some k\<close> is the integer \<open>k\<close>;
  \<^item> \<open>predict m X\<close>: \<^verbatim>\<open>model.predict(X)\<close>, one of \<open>1\<close> (inlier) and \<open>-1\<close> (outlier) per
    row.
\<close>

record ('w, 'x, 's, 'm) library =
  ambient :: "'w"
  to_numpy_float :: "cell list list \<Rightarrow> error + 'x"
  log1p :: "'x \<Rightarrow> 'x"
  to_numpy_int :: "cell list \<Rightarrow> error + int list"
  fit_transform :: "'x \<Rightarrow> error + ('s \<times> 'x)"
  transform :: "'s \<Rightarrow> 'x \<Rightarrow> error + 'x"
  forest_fit :: "'w \<Rightarrow> int \<Rightarrow> real \<Rightarrow> int option \<Rightarrow> 'x \<Rightarrow> error + 'm"
  predict :: "'m \<Rightarrow> 'x \<Rightarrow> error + int list"

definition RETINA_FEATURE_COLUMNS :: "string list" where
  "RETINA_FEATURE_COLUMNS = [''packet_count'', ''byte_count'', ''duration_seconds'', ''rate_bps'']"

definition make_X :: "('w, 'x, 's, 'm) library \<Rightarrow> frame \<Rightarrow> error + 'x" where
  "make_X L df =
     (case select_columns df RETINA_FEATURE_COLUMNS of
        Inl e \<Rightarrow> Inl e
      | Inr sub \<Rightarrow>
          (case to_numpy_float L (rows sub) of
             Inl e \<Rightarrow> Inl e
           | Inr X \<Rightarrow> Inr (log1p L X)))"

text \<open>The dictionary \<^verbatim>\<open>best_params\<close>.\<close>

record params =
  contamination :: real
  n_estimators :: int

text \<open>
  The body of the inner loop up to the metrics: one candidate is fitted and scored on the
  validation frame. The forest is given the seed: \<^verbatim>\<open>random_state=int(random_state)\<close>.
  \<^verbatim>\<open>(pred == -1).astype(int)\<close> turns the outlier decision into the attack prediction.
\<close>

definition trial ::
  "('w, 'x, 's, 'm) library \<Rightarrow> 'x \<Rightarrow> frame \<Rightarrow> int \<Rightarrow> real \<Rightarrow> int \<Rightarrow> error + ('m \<times> 's \<times> metrics)" where
  "trial L X_train_raw validation random_state contamination' n_estimators' =
     (case fit_transform L X_train_raw of
        Inl e \<Rightarrow> Inl e
      | Inr (scaler, X_train) \<Rightarrow>
     (case forest_fit L (ambient L) n_estimators' contamination' (Some random_state) X_train of
        Inl e \<Rightarrow> Inl e
      | Inr model \<Rightarrow>
     (case make_X L validation of
        Inl e \<Rightarrow> Inl e
      | Inr X_val_raw \<Rightarrow>
     (case transform L scaler X_val_raw of
        Inl e \<Rightarrow> Inl e
      | Inr X_val \<Rightarrow>
     (case predict L model X_val of
        Inl e \<Rightarrow> Inl e
      | Inr pred \<Rightarrow>
     (case column_values validation ''is_attack'' of
        Inl e \<Rightarrow> Inl e
      | Inr labels \<Rightarrow>
     (case to_numpy_int L labels of
        Inl e \<Rightarrow> Inl e
      | Inr y_true_attack \<Rightarrow>
     (case compute_metrics y_true_attack (map (\<lambda>p. if p = - 1 then 1 else 0) pred) of
        Inl e \<Rightarrow> Inl e
      | Inr metrics \<Rightarrow> Inr (model, scaler, metrics)))))))))"

text \<open>Python's \<^verbatim>\<open>>\<close> on pairs of floats: lexicographic.\<close>

definition tuple_gt :: "real \<times> real \<Rightarrow> real \<times> real \<Rightarrow> bool" where
  "tuple_gt a b \<longleftrightarrow> fst a > fst b \<or> (fst a = fst b \<and> snd a > snd b)"

definition key_of :: "metrics \<Rightarrow> real \<times> real" where
  "key_of metrics = (precision metrics, f1 metrics)"

text \<open>The five \<^verbatim>\<open>best_*\<close> variables of the loop.\<close>

record ('s, 'm) best =
  best_key :: "real \<times> real"
  best_model :: "'m option"
  best_scaler :: "'s option"
  best_params :: "params option"
  best_metrics :: "metrics option"

abbreviation initial_best :: "('s, 'm) best" where
  "initial_best \<equiv>
     \<lparr>best_key = (- 1, - 1), best_model = None, best_scaler = None,
      best_params = None, best_metrics = None\<rparr>"

text \<open>The \<^verbatim>\<open>if key > best_key\<close> at the end of the loop body.\<close>

definition record_candidate ::
  "real \<Rightarrow> int \<Rightarrow> 'm \<times> 's \<times> metrics \<Rightarrow> ('s, 'm) best \<Rightarrow> ('s, 'm) best" where
  "record_candidate contamination' n_estimators' r st =
     (case r of (model, scaler, metrics) \<Rightarrow>
        if tuple_gt (key_of metrics) (best_key st)
        then \<lparr>best_key = key_of metrics, best_model = Some model, best_scaler = Some scaler,
              best_params = Some \<lparr>contamination = contamination', n_estimators = n_estimators'\<rparr>,
              best_metrics = Some metrics\<rparr>
        else st)"

text \<open>\<^verbatim>\<open>for n_estimators in n_estimators_grid: ...\<close>\<close>

fun inner_loop ::
  "('w, 'x, 's, 'm) library \<Rightarrow> 'x \<Rightarrow> frame \<Rightarrow> int \<Rightarrow> real \<Rightarrow> int list \<Rightarrow> ('s, 'm) best
     \<Rightarrow> error + ('s, 'm) best" where
  "inner_loop L X validation random_state c [] st = Inr st"
| "inner_loop L X validation random_state c (n # ns) st =
     (case trial L X validation random_state c n of
        Inl e \<Rightarrow> Inl e
      | Inr r \<Rightarrow> inner_loop L X validation random_state c ns (record_candidate c n r st))"

text \<open>\<^verbatim>\<open>for contamination in contamination_grid: ...\<close>\<close>

fun outer_loop ::
  "('w, 'x, 's, 'm) library \<Rightarrow> 'x \<Rightarrow> frame \<Rightarrow> int \<Rightarrow> real list \<Rightarrow> int list \<Rightarrow> ('s, 'm) best
     \<Rightarrow> error + ('s, 'm) best" where
  "outer_loop L X validation random_state [] n_estimators_grid st = Inr st"
| "outer_loop L X validation random_state (c # cs) n_estimators_grid st =
     (case inner_loop L X validation random_state c n_estimators_grid st of
        Inl e \<Rightarrow> Inl e
      | Inr st' \<Rightarrow> outer_loop L X validation random_state cs n_estimators_grid st')"

text \<open>The four trailing \<^verbatim>\<open>assert ... is not None\<close> and the \<^verbatim>\<open>return\<close>.\<close>

definition finish :: "('s, 'm) best \<Rightarrow> error + ('m \<times> 's \<times> params \<times> metrics)" where
  "finish st =
     (case best_model st of None \<Rightarrow> Inl AssertionError | Some model \<Rightarrow>
     (case best_scaler st of None \<Rightarrow> Inl AssertionError | Some scaler \<Rightarrow>
     (case best_params st of None \<Rightarrow> Inl AssertionError | Some ps \<Rightarrow>
     (case best_metrics st of None \<Rightarrow> Inl AssertionError | Some metrics \<Rightarrow>
        Inr (model, scaler, ps, metrics)))))"

definition tune_iforest ::
  "('w, 'x, 's, 'm) library \<Rightarrow> frame \<Rightarrow> frame \<Rightarrow> real list \<Rightarrow> int list \<Rightarrow> int
     \<Rightarrow> error + ('m \<times> 's \<times> params \<times> metrics)" where
  "tune_iforest L normal_train validation contamination_grid n_estimators_grid random_state =
     (case make_X L normal_train of
        Inl e \<Rightarrow> Inl e
      | Inr X_train_raw \<Rightarrow>
          (case outer_loop L X_train_raw validation random_state contamination_grid
                  n_estimators_grid initial_best of
             Inl e \<Rightarrow> Inl e
           | Inr st \<Rightarrow> finish st))"

subsection \<open>The loop nest as one loop over the candidates\<close>

text \<open>
  The order in which the two nested \<^verbatim>\<open>for\<close> loops visit the candidates: the contamination
  grid outside, the ensemble-size grid inside, each in the order of its list.
\<close>

definition grid_order :: "real list \<Rightarrow> int list \<Rightarrow> (real \<times> int) list" where
  "grid_order contamination_grid n_estimators_grid =
     concat (map (\<lambda>c. map (\<lambda>n. (c, n)) n_estimators_grid) contamination_grid)"

fun run_candidates ::
  "('w, 'x, 's, 'm) library \<Rightarrow> 'x \<Rightarrow> frame \<Rightarrow> int \<Rightarrow> (real \<times> int) list \<Rightarrow> ('s, 'm) best
     \<Rightarrow> error + ('s, 'm) best" where
  "run_candidates L X validation random_state [] st = Inr st"
| "run_candidates L X validation random_state ((c, n) # cs) st =
     (case trial L X validation random_state c n of
        Inl e \<Rightarrow> Inl e
      | Inr r \<Rightarrow> run_candidates L X validation random_state cs (record_candidate c n r st))"

text \<open>The state of the loop after candidate \<open>x\<close>, with trial result \<open>r\<close>, has been kept.\<close>

definition recorded :: "real \<times> int \<Rightarrow> 'm \<times> 's \<times> metrics \<Rightarrow> ('s, 'm) best" where
  "recorded x r =
     \<lparr>best_key = key_of (snd (snd r)), best_model = Some (fst r), best_scaler = Some (fst (snd r)),
      best_params = Some \<lparr>contamination = fst x, n_estimators = snd x\<rparr>,
      best_metrics = Some (snd (snd r))\<rparr>"

text \<open>
  Position \<open>i\<close> holds the first of the lexicographically greatest keys of \<open>ks\<close>: no key
  is greater, and every earlier key is smaller.
\<close>

definition first_greatest :: "(real \<times> real) list \<Rightarrow> nat \<Rightarrow> bool" where
  "first_greatest ks i \<longleftrightarrow>
     i < length ks
     \<and> list_all (\<lambda>k. \<not> tuple_gt k (ks ! i)) ks
     \<and> list_all (\<lambda>k. tuple_gt (ks ! i) k) (take i ks)"

subsection \<open>The outcome of one candidate\<close>

fun outcome_of :: "error + ('m \<times> 's \<times> metrics) \<Rightarrow> error + metrics" where
  "outcome_of (Inl e) = Inl e"
| "outcome_of (Inr r) = Inr (snd (snd r))"

text \<open>
  What one candidate yields in a run, leaving the fitted objects aside: its validation
  metrics, or the exception raised on the way.
\<close>

definition candidate_outcome ::
  "('w, 'x, 's, 'm) library \<Rightarrow> frame \<Rightarrow> frame \<Rightarrow> int \<Rightarrow> real \<Rightarrow> int \<Rightarrow> error + metrics" where
  "candidate_outcome L normal_train validation random_state c n =
     (case make_X L normal_train of
        Inl e \<Rightarrow> Inl e
      | Inr X \<Rightarrow> outcome_of (trial L X validation random_state c n))"

subsection \<open>A small library and two frames, for concrete runs\<close>

text \<open>
  A stand-in for numpy and scikit-learn on which the tuner can be run by hand. The matrix
  is the list of the rows as numbers, \<open>log1p\<close> leaves it unchanged, the scaler is a token
  \<open>tok\<close> that leaves the matrix unchanged and rejects an empty one, the forest rejects a
  contamination outside \<open>(0, 1/2]\<close> and remembers a cut and its ensemble size, and a row
  is an outlier when \<open>100 * cut\<close> times the sum of its features exceeds \<open>1\<close>. The cut is
  the contamination for an even seed and a tenth of it for an odd seed; without a seed it
  is the contamination times the ambient state, a real number.
\<close>

fun num_of :: "cell \<Rightarrow> real option" where
  "num_of (Num v) = Some v"
| "num_of (Str s) = None"
| "num_of NaN = None"

fun all_some :: "'a option list \<Rightarrow> 'a list option" where
  "all_some [] = Some []"
| "all_some (x # xs) =
     (case x of None \<Rightarrow> None | Some v \<Rightarrow> map_option ((#) v) (all_some xs))"

definition threshold_library :: "'s \<Rightarrow> (real, real list list, 's, real \<times> int) library" where
  "threshold_library tok =
     \<lparr>ambient = 1,
      to_numpy_float = (\<lambda>rs. case all_some (map (\<lambda>r. all_some (map num_of r)) rs) of
                                 None \<Rightarrow> Inl (ValueError ''could not convert to float'')
                               | Some X \<Rightarrow> Inr X),
      log1p = (\<lambda>X. X),
      to_numpy_int = (\<lambda>cs. case all_some (map num_of cs) of
                               None \<Rightarrow> Inl (ValueError ''could not convert to int'')
                             | Some vs \<Rightarrow> Inr (map floor vs)),
      fit_transform = (\<lambda>X. if X = [] then Inl (ValueError ''Found array with 0 sample(s)'')
                             else Inr (tok, X)),
      transform = (\<lambda>s X. Inr X),
      forest_fit = (\<lambda>w n c seed X.
                      if 0 < c \<and> c \<le> 1 / 2 \<and> 1 \<le> n
                      then Inr (case seed of
                                  None \<Rightarrow> c * w
                                | Some k \<Rightarrow> if even k then c else c / 10, n)
                      else Inl (ValueError ''invalid parameter'')),
      predict = (\<lambda>m X. Inr (map (\<lambda>row. if 1 < 100 * fst m * sum_list row then - 1 else 1) X))\<rparr>"

definition flow_columns :: "(string \<times> dtype) list" where
  "flow_columns = [(''packet_count'', Float64), (''byte_count'', Float64),
                   (''duration_seconds'', Float64), (''rate_bps'', Float64), (''is_attack'', Int64)]"

text \<open>A training frame with a single distinct row, and the frame with no row.\<close>

definition constant_train :: frame where
  "constant_train =
     \<lparr>columns = flow_columns,
      rows = [[Num 1, Num 1, Num 1, Num 1, Num 0], [Num 1, Num 1, Num 1, Num 1, Num 0]]\<rparr>"


definition small_validation :: frame where
  "small_validation =
     \<lparr>columns = flow_columns,
      rows = [[Num 0, Num 0, Num 0, Num 0, Num 0],
              [Num (3 / 4), Num 0, Num 0, Num 0, Num 0],
              [Num 2, Num 0, Num 0, Num 0, Num 1],
              [Num 20, Num 0, Num 0, Num 0, Num 1]]\<rparr>"

text \<open>The metrics of the three contamination values used below, on \<open>small_validation\<close>.\<close>

definition metrics_low :: metrics where
  "metrics_low = \<lparr>tp = 1, fp = 0, tn = 2, fn = 1, precision = 1, recall = 1 / 2, f1 = 2 / 3,
                   true_positive_rate = 1 / 2, false_positive_rate = 0\<rparr>"

definition metrics_mid :: metrics where
  "metrics_mid = \<lparr>tp = 2, fp = 0, tn = 2, fn = 0, precision = 1, recall = 1, f1 = 1,
                   true_positive_rate = 1, false_positive_rate = 0\<rparr>"

definition metrics_high :: metrics where
  "metrics_high = \<lparr>tp = 2, fp = 1, tn = 1, fn = 0, precision = 2 / 3, recall = 1, f1 = 4 / 5,
                    true_positive_rate = 1, false_positive_rate = 1 / 2\<rparr>"

text \<open>The trial results of the small library on \<open>small_validation\<close>, by candidate.\<close>

definition small_results :: "'s \<Rightarrow> real \<times> int \<Rightarrow> (real \<times> int) \<times> 's \<times> metrics" where
  "small_results tok x =
     (x, tok, if fst x = 1 / 1000 then metrics_low
              else if fst x = 1 / 100 then metrics_mid else metrics_high)"

text \<open>The two grids that \<^verbatim>\<open>main\<close> passes to \<^verbatim>\<open>tune_iforest\<close>.\<close>

definition main_contamination_grid :: "real list" where
  "main_contamination_grid = [1 / 1000, 2 / 1000, 5 / 1000, 1 / 100, 2 / 100]"

definition main_n_estimators_grid :: "int list" where
  "main_n_estimators_grid = [100, 200, 400]"

text \<open>The lexicographic order on candidates: by contamination, then by ensemble size.\<close>

definition candidate_le :: "real \<times> int \<Rightarrow> real \<times> int \<Rightarrow> bool" where
  "candidate_le a b \<longleftrightarrow> fst a < fst b \<or> (fst a = fst b \<and> snd a \<le> snd b)"

section \<open>The preprocessor: \<^verbatim>\<open>FlowPreprocessor\<close> (src/argus\_v/mnemosyne/preprocessing.py)\<close>

text \<open>
  The calls of \<^verbatim>\<open>log_event\<close> only write to the log and are left out. Frames are taken
  to have distinct column names.
\<close>

subsection \<open>\<^verbatim>\<open>prepare_features\<close>\<close>















subsection \<open>\<^verbatim>\<open>tune_contamination_parameter\<close>\<close>

text \<open>\<^verbatim>\<open>np.linspace(a, b, num)\<close>, for \<open>num\<close> at least two.\<close>

definition linspace :: "real \<Rightarrow> real \<Rightarrow> nat \<Rightarrow> real list" where
  "linspace a b num = map (\<lambda>i. a + real i * ((b - a) / real (num - 1))) [0..<num]"

text \<open>
  The body of the \<^verbatim>\<open>try\<close> up to \<^verbatim>\<open>scores.mean()\<close> is a parameter \<open>score\<close>: for a
  contamination value, the mean cross-validation score of an \<^verbatim>\<open>IsolationForest\<close> on the
  frame, where \<open>None\<close> is a NaN mean, or the exception raised. The loop state is
  \<^verbatim>\<open>best_contamination\<close>, \<^verbatim>\<open>best_score\<close> and the dictionary \<^verbatim>\<open>tuning_stats['scores']\<close>.
  A comparison with NaN is false.
\<close>

fun contamination_loop ::
  "(real \<Rightarrow> error + real option) \<Rightarrow> real list \<Rightarrow> real option \<times> real \<times> (real \<rightharpoonup> real option)
     \<Rightarrow> real option \<times> real \<times> (real \<rightharpoonup> real option)" where
  "contamination_loop score [] st = st"
| "contamination_loop score (contamination' # cs) (best_contamination, best_score, scores) =
     (case score contamination' of
        Inl e \<Rightarrow> contamination_loop score cs (best_contamination, best_score, scores)
      | Inr None \<Rightarrow>
          contamination_loop score cs
            (best_contamination, best_score, scores(contamination' \<mapsto> None))
      | Inr (Some mean_score) \<Rightarrow>
          if mean_score > best_score
          then contamination_loop score cs
                 (Some contamination', mean_score, scores(contamination' \<mapsto> Some mean_score))
          else contamination_loop score cs
                 (best_contamination, best_score, scores(contamination' \<mapsto> Some mean_score)))"

record tuning_stats =
  contamination_range :: "real \<times> real"
  scores :: "real \<rightharpoonup> real option"
  stats_best_contamination :: real
  stats_best_score :: real

definition tune_contamination_parameter ::
  "real \<times> real \<Rightarrow> (real \<Rightarrow> error + real option) \<Rightarrow> real \<times> tuning_stats" where
  "tune_contamination_parameter config_contamination_range score =
     (case config_contamination_range of (min_contamination, max_contamination) \<Rightarrow>
        (case contamination_loop score (linspace min_contamination max_contamination 10)
                (Some min_contamination, 0, Map.empty) of
           (best_contamination, best_score, scores') \<Rightarrow>
             let best_contamination' =
                   (case best_contamination of None \<Rightarrow> min_contamination | Some c \<Rightarrow> c)
             in (best_contamination',
                 \<lparr>contamination_range = config_contamination_range, scores = scores',
                  stats_best_contamination = best_contamination',
                  stats_best_score = best_score\<rparr>)))"

text \<open>
  A scoring for a concrete run: it raises for a contamination up to \<open>1/20\<close> and is
  negative above. (The scoring name \<^verbatim>\<open>neg_mean_score\<close> that the method passes appears
  not to be one the library knows; then every candidate raises.)
\<close>

definition failing_then_negative :: "real \<Rightarrow> error + real option" where
  "failing_then_negative c =
     (if c \<le> 1 / 20 then Inl (ValueError ''neg_mean_score is not a valid scoring value'')
      else Inr (Some (- c)))"

text \<open>A scoring that raises for every candidate below \<open>1/10\<close> and is \<open>1\<close> from there on.\<close>

definition only_last_scores :: "real \<Rightarrow> error + real option" where
  "only_last_scores c =
     (if c < 1 / 10 then Inl (ValueError ''neg_mean_score is not a valid scoring value'')
      else Inr (Some 1))"

subsection \<open>\<^verbatim>\<open>detect_feature_outliers\<close>\<close>

text \<open>The numbers of a column; \<^verbatim>\<open>Series.quantile\<close> skips the missing values.\<close>

fun numbers :: "cell list \<Rightarrow> real list" where
  "numbers [] = []"
| "numbers (Num v # cs) = v # numbers cs"
| "numbers (Str s # cs) = numbers cs"
| "numbers (NaN # cs) = numbers cs"

text \<open>
  \<^verbatim>\<open>Series.quantile(q)\<close> with the default linear interpolation, for \<open>0 \<le> q \<le> 1\<close>: on
  the sorted numbers \<open>xs\<close>, the value at the fractional position \<open>q * (n - 1)\<close>. The
  quantile of a column without numbers is NaN, here \<open>None\<close>.
\<close>

definition quantile :: "real \<Rightarrow> cell list \<Rightarrow> real option" where
  "quantile q vs =
     (let xs = sort (numbers vs); n = length xs
      in if n = 0 then None
         else
           (let h = q * real (n - 1); lo = nat \<lfloor>h\<rfloor>
            in Some (if Suc lo < n then xs ! lo + (h - real lo) * (xs ! Suc lo - xs ! lo)
                     else xs ! lo)))"

text \<open>
  \<^verbatim>\<open>lower_bound\<close> and \<^verbatim>\<open>upper_bound\<close>; \<open>None\<close> when the quartiles, and so the bounds, are
  NaN.
\<close>

definition outlier_bounds :: "real \<Rightarrow> cell list \<Rightarrow> (real \<times> real) option" where
  "outlier_bounds threshold vs =
     (case quantile (1 / 4) vs of
        None \<Rightarrow> None
      | Some Q1 \<Rightarrow>
          (case quantile (3 / 4) vs of
             None \<Rightarrow> None
           | Some Q3 \<Rightarrow>
               (let IQR = Q3 - Q1
                in Some (Q1 - threshold * IQR, Q3 + threshold * IQR))))"

text \<open>
  \<^verbatim>\<open>(x < lower_bound) | (x > upper_bound)\<close>: false for a missing value and for NaN
  bounds. A column of dtype int64 or float64 holds no string.
\<close>

fun is_outlier :: "(real \<times> real) option \<Rightarrow> cell \<Rightarrow> bool" where
  "is_outlier (Some (lower_bound, upper_bound)) (Num v) = (v < lower_bound \<or> v > upper_bound)"
| "is_outlier (Some b) (Str s) = False"
| "is_outlier (Some b) NaN = False"
| "is_outlier None c = False"

record outlier_stats =
  total_outliers :: int
  outliers_by_feature :: "string \<rightharpoonup> int \<times> real option"
  removal_percentage :: real

text \<open>
  The loop over the columns, each with its position. The percentage is the quotient of a
  numpy integer by \<^verbatim>\<open>len(cleaned_df)\<close>, which is NaN (\<open>None\<close>) and not an exception when
  the frame has no rows. \<^verbatim>\<open>cleaned_df[~outliers]\<close> keeps the rows whose mask is false.
\<close>

fun outlier_loop ::
  "real \<Rightarrow> (nat \<times> string \<times> dtype) list \<Rightarrow> frame \<times> (string \<rightharpoonup> int \<times> real option)
     \<Rightarrow> frame \<times> (string \<rightharpoonup> int \<times> real option)" where
  "outlier_loop threshold [] st = st"
| "outlier_loop threshold ((j, column, dt) # cols) (cleaned_df, by_feature) =
     (if dt = Int64 \<or> dt = Float64
      then
        (let vs = map (\<lambda>r. cell_at r j) (rows cleaned_df);
             bounds = outlier_bounds threshold vs;
             outliers = map (is_outlier bounds) vs;
             outlier_count = int (length (filter (\<lambda>out. out) outliers));
             by_feature' = by_feature(column \<mapsto>
               (outlier_count,
                if len cleaned_df = 0 then None
                else Some (real_of_int outlier_count / real (len cleaned_df) * 100)));
             cleaned_df' =
               (if threshold \<ge> 3
                then cleaned_df\<lparr>rows :=
                       map fst (filter (\<lambda>(r, out). \<not> out) (zip (rows cleaned_df) outliers))\<rparr>
                else cleaned_df)
         in outlier_loop threshold cols (cleaned_df', by_feature'))
      else outlier_loop threshold cols (cleaned_df, by_feature))"

text \<open>
  \<^verbatim>\<open>(initial_rows - final_rows) / initial_rows * 100\<close> divides two Python integers: it
  raises \<^verbatim>\<open>ZeroDivisionError\<close> when the input frame has no rows.
\<close>

definition detect_feature_outliers :: "frame \<Rightarrow> real \<Rightarrow> error + (frame \<times> outlier_stats)" where
  "detect_feature_outliers df threshold =
     (let initial_rows = len df
      in (case outlier_loop threshold (zip [0..<length (columns df)] (columns df))
                 (df, Map.empty) of
            (cleaned_df, by_feature) \<Rightarrow>
              (let final_rows = len cleaned_df
               in if initial_rows = 0 then Inl ZeroDivisionError
                  else Inr (cleaned_df,
                            \<lparr>total_outliers = int initial_rows - int final_rows,
                             outliers_by_feature = by_feature,
                             removal_percentage =
                               (real initial_rows - real final_rows) / real initial_rows * 100\<rparr>))))"

text \<open>What one pass of the loop, for the column at position \<open>j\<close>, does to the frame.\<close>

definition outlier_step :: "real \<Rightarrow> nat \<Rightarrow> dtype \<Rightarrow> frame \<Rightarrow> frame" where
  "outlier_step threshold j dt df =
     (if (dt = Int64 \<or> dt = Float64) \<and> threshold \<ge> 3
      then df\<lparr>rows := filter (\<lambda>r. \<not> is_outlier
                 (outlier_bounds threshold (map (\<lambda>r. cell_at r j) (rows df))) (cell_at r j))
               (rows df)\<rparr>
      else df)"

text \<open>Frames for concrete runs: five durations, one of them far off, and no flow at all.\<close>

definition durations :: frame where
  "durations =
     \<lparr>columns = [(''src_ip'', Object), (''duration'', Float64)],
      rows = [[Str ''a'', Num 3], [Str ''b'', Num 100], [Str ''c'', Num 1], [Str ''d'', Num 4],
              [Str ''e'', Num 2]]\<rparr>"

definition no_flows :: frame where
  "no_flows = \<lparr>columns = [(''src_ip'', Object), (''duration'', Float64)], rows = []\<rparr>"

section \<open>The explainer: \<^verbatim>\<open>ModelManager.explain_anomaly\<close> (argus\_v/aegis/model\_manager.py)\<close>

text \<open>
  Modelled from the spec: the method \<^verbatim>\<open>explain_anomaly\<close> of \<^verbatim>\<open>ModelManager\<close>, whose module
  argus\_v/aegis/model\_manager.py is not among the sources (only its tests,
  tests/aegis/test\_xai.py, are). The definitions follow section 4.5 of the specification:
  for each feature present in both the record and the scaler's feature list,
  \<open>z = (value - mean) / scale\<close>; the deviations are ranked by descending \<open>\<bar>z\<bar>\<close> and
  the first \<open>top_k\<close> are formatted as \<^verbatim>\<open>"<feature> (<sign><|z| to 1 decimal>\<sigma>)"\<close>;
  without a scaler the result is the one sentinel string. Where the specification is
  silent, the model takes the features in the order of the scaler's list, keeps that order
  among equal \<open>\<bar>z\<bar>\<close>, rounds half to even, writes \<open>+\<close> for a \<open>z\<close> that is not negative,
  and writes the letter sigma as its two UTF-8 bytes.
\<close>

record scaler_stats =
  scaler_mean :: "real list"
  scaler_scale :: "real list"

record model_manager =
  manager_scaler :: "scaler_stats option"
  manager_feature_columns :: "string list"

definition deviations :: "string list \<Rightarrow> scaler_stats \<Rightarrow> (string \<times> real) list \<Rightarrow> (string \<times> real) list" where
  "deviations names sc flow =
     List.map_filter
       (\<lambda>(feature, m, s). case map_of flow feature of
                             None \<Rightarrow> None
                           | Some v \<Rightarrow> Some (feature, (v - m) / s))
       (zip names (zip (scaler_mean sc) (scaler_scale sc)))"

definition ranked :: "(string \<times> real) list \<Rightarrow> (string \<times> real) list" where
  "ranked ds = sort_key (\<lambda>d. - \<bar>snd d\<bar>) ds"

definition digit :: "nat \<Rightarrow> char" where
  "digit n = ''0123456789'' ! (n mod 10)"

fun string_of_nat :: "nat \<Rightarrow> string" where
  "string_of_nat n = (if n < 10 then [digit n] else string_of_nat (n div 10) @ [digit n])"

declare string_of_nat.simps [simp del]

text \<open>A real that is not negative, rounded to a number of tenths.\<close>

definition tenths :: "real \<Rightarrow> nat" where
  "tenths x =
     (let n = nat \<lfloor>10 * x\<rfloor>; rest = 10 * x - real n
      in if rest > 1 / 2 \<or> (rest = 1 / 2 \<and> odd n) then Suc n else n)"

definition one_decimal :: "real \<Rightarrow> string" where
  "one_decimal x = string_of_nat (tenths x div 10) @ ''.'' @ [digit (tenths x)]"

definition sigma :: string where
  "sigma = [CHR 0xCF, CHR 0x83]"

definition format_deviation :: "string \<times> real \<Rightarrow> string" where
  "format_deviation d =
     fst d @ '' ('' @ (if snd d < 0 then ''-'' else ''+'') @ one_decimal \<bar>snd d\<bar> @ sigma @ '')''"

definition explain_anomaly :: "model_manager \<Rightarrow> (string \<times> real) list \<Rightarrow> nat \<Rightarrow> string list" where
  "explain_anomaly manager flow top_k =
     (case manager_scaler manager of
        None \<Rightarrow> [''Explanation unavailable (no scaler stats)'']
      | Some sc \<Rightarrow>
          map format_deviation
            (take top_k (ranked (deviations (manager_feature_columns manager) sc flow))))"

text \<open>The managers of the tests.\<close>

definition unit_manager :: model_manager where
  "unit_manager =
     \<lparr>manager_scaler = Some \<lparr>scaler_mean = [0, 0, 0], scaler_scale = [1, 1, 1]\<rparr>,
      manager_feature_columns = [''F1'', ''F2'', ''F3'']\<rparr>"

definition test_manager :: model_manager where
  "test_manager =
     \<lparr>manager_scaler = Some \<lparr>scaler_mean = [10], scaler_scale = [2]\<rparr>,
      manager_feature_columns = [''test_feature'']\<rparr>"

section \<open>Properties of the evaluator\<close>

lemma count_cell_nonneg: "0 \<le> count_cell a b ps"
  by (simp add: count_cell_def)

lemma ratio_in_unit:
  fixes a b :: int
  assumes "0 \<le> a" "0 \<le> b"
  shows "0 \<le> real_of_int a / real_of_int (a + b)" "real_of_int a / real_of_int (a + b) \<le> 1"
proof -
  show "0 \<le> real_of_int a / real_of_int (a + b)"
    using assms by simp
  show "real_of_int a / real_of_int (a + b) \<le> 1"
  proof (cases "a + b = 0")
    case True
    then show ?thesis by simp
  next
    case False
    with assms have "0 < real_of_int (a + b)" by simp
    moreover have "real_of_int a \<le> real_of_int (a + b)" using assms by simp
    ultimately show ?thesis by (simp add: divide_le_eq)
  qed
qed

lemma harmonic_in_unit:
  fixes p r :: real
  assumes "0 \<le> p" "p \<le> 1" "0 \<le> r" "r \<le> 1"
  shows "0 \<le> 2 * p * r / (p + r)" "2 * p * r / (p + r) \<le> 1"
proof -
  show "0 \<le> 2 * p * r / (p + r)"
    using assms by simp
  show "2 * p * r / (p + r) \<le> 1"
  proof (cases "p + r = 0")
    case True
    then show ?thesis by simp
  next
    case False
    with assms have pos: "0 < p + r" by simp
    have "p * r \<le> p * 1" using assms by (intro mult_left_mono) simp_all
    moreover have "p * r \<le> 1 * r" using assms by (intro mult_right_mono) simp_all
    ultimately have "2 * p * r \<le> p + r" by simp
    with pos show ?thesis by (simp add: divide_le_eq)
  qed
qed

lemma metrics_of_counts_precision:
  assumes "0 \<le> a" "0 \<le> c"
  shows "0 \<le> precision (metrics_of_counts a b c d)" "precision (metrics_of_counts a b c d) \<le> 1"
  using ratio_in_unit [OF assms] by (simp_all add: metrics_of_counts_def Let_def)

lemma metrics_of_counts_recall:
  assumes "0 \<le> a" "0 \<le> d"
  shows "0 \<le> recall (metrics_of_counts a b c d)" "recall (metrics_of_counts a b c d) \<le> 1"
  using ratio_in_unit [OF assms] by (simp_all add: metrics_of_counts_def Let_def)

lemma metrics_of_counts_fpr:
  assumes "0 \<le> c" "0 \<le> b"
  shows "0 \<le> false_positive_rate (metrics_of_counts a b c d)"
    "false_positive_rate (metrics_of_counts a b c d) \<le> 1"
  using ratio_in_unit [OF assms] by (simp_all add: metrics_of_counts_def Let_def)

lemma metrics_of_counts_f1_eq:
  "f1 (metrics_of_counts a b c d) =
     (if precision (metrics_of_counts a b c d) + recall (metrics_of_counts a b c d) \<noteq> 0
      then 2 * precision (metrics_of_counts a b c d) * recall (metrics_of_counts a b c d)
           / (precision (metrics_of_counts a b c d) + recall (metrics_of_counts a b c d))
      else 0)"
  by (simp add: metrics_of_counts_def Let_def)

lemma metrics_of_counts_f1:
  assumes "0 \<le> a" "0 \<le> c" "0 \<le> d"
  shows "0 \<le> f1 (metrics_of_counts a b c d)" "f1 (metrics_of_counts a b c d) \<le> 1"
proof -
  let ?p = "precision (metrics_of_counts a b c d)" and ?r = "recall (metrics_of_counts a b c d)"
  have p: "0 \<le> ?p" "?p \<le> 1" using metrics_of_counts_precision assms by blast+
  have r: "0 \<le> ?r" "?r \<le> 1" using metrics_of_counts_recall assms by blast+
  show "0 \<le> f1 (metrics_of_counts a b c d)"
    using harmonic_in_unit(1) [OF p r] by (simp add: metrics_of_counts_f1_eq)
  show "f1 (metrics_of_counts a b c d) \<le> 1"
    using harmonic_in_unit(2) [OF p r] by (simp add: metrics_of_counts_f1_eq)
qed

lemma metrics_of_counts_zero_denominators:
  "a + c = 0 \<Longrightarrow> precision (metrics_of_counts a b c d) = 0"
  "a + d = 0 \<Longrightarrow> recall (metrics_of_counts a b c d) = 0"
  "c + b = 0 \<Longrightarrow> false_positive_rate (metrics_of_counts a b c d) = 0"
  "precision (metrics_of_counts a b c d) + recall (metrics_of_counts a b c d) = 0
     \<Longrightarrow> f1 (metrics_of_counts a b c d) = 0"
  "true_positive_rate (metrics_of_counts a b c d) = recall (metrics_of_counts a b c d)"
  "tp (metrics_of_counts a b c d) = a" "tn (metrics_of_counts a b c d) = b"
  "fp (metrics_of_counts a b c d) = c" "fn (metrics_of_counts a b c d) = d"
  by (simp_all add: metrics_of_counts_def Let_def)

lemma compute_metrics_equal_length:
  "length yt = length yp \<Longrightarrow>
   compute_metrics yt yp =
     Inr (metrics_of_counts (count_cell 1 1 (zip yt yp)) (count_cell 0 0 (zip yt yp))
            (count_cell 0 1 (zip yt yp)) (count_cell 1 0 (zip yt yp)))"
  by (simp add: compute_metrics_def broadcast_def)

text \<open>
  Claim C2. For two label arrays of equal length, \<^verbatim>\<open>compute_metrics\<close> returns a
  \<^verbatim>\<open>Metrics\<close> value whose precision, recall, F1, true-positive rate and false-positive
  rate all lie in \<open>[0, 1]\<close>; a ratio whose denominator (\<open>tp + fp\<close>, \<open>tp + fn\<close>,
  \<open>fp + tn\<close>) is zero is \<open>0.0\<close>; F1 is \<open>0\<close> when precision + recall is \<open>0\<close>; and the
  true-positive rate is the recall. The labels need not even be binary.
\<close>

theorem compute_metrics_bounds:
  assumes "length yt = length yp"
  shows "\<exists>m. compute_metrics yt yp = Inr m
           \<and> 0 \<le> precision m \<and> precision m \<le> 1
           \<and> 0 \<le> recall m \<and> recall m \<le> 1
           \<and> 0 \<le> f1 m \<and> f1 m \<le> 1
           \<and> 0 \<le> true_positive_rate m \<and> true_positive_rate m \<le> 1
           \<and> 0 \<le> false_positive_rate m \<and> false_positive_rate m \<le> 1
           \<and> (tp m + fp m = 0 \<longrightarrow> precision m = 0)
           \<and> (tp m + fn m = 0 \<longrightarrow> recall m = 0 \<and> true_positive_rate m = 0)
           \<and> (fp m + tn m = 0 \<longrightarrow> false_positive_rate m = 0)
           \<and> (precision m + recall m = 0 \<longrightarrow> f1 m = 0)
           \<and> true_positive_rate m = recall m"
proof -
  let ?ps = "zip yt yp"
  let ?m = "metrics_of_counts (count_cell 1 1 ?ps) (count_cell 0 0 ?ps)
              (count_cell 0 1 ?ps) (count_cell 1 0 ?ps)"
  note nn = count_cell_nonneg
  have eq: "compute_metrics yt yp = Inr ?m"
    using assms by (rule compute_metrics_equal_length)
  have p: "0 \<le> precision ?m" "precision ?m \<le> 1"
    by (rule metrics_of_counts_precision [OF nn nn])+
  have r: "0 \<le> recall ?m" "recall ?m \<le> 1"
    by (rule metrics_of_counts_recall [OF nn nn])+
  have f: "0 \<le> f1 ?m" "f1 ?m \<le> 1"
    by (rule metrics_of_counts_f1 [OF nn nn nn])+
  have q: "0 \<le> false_positive_rate ?m" "false_positive_rate ?m \<le> 1"
    by (rule metrics_of_counts_fpr [OF nn nn])+
  have t: "true_positive_rate ?m = recall ?m"
    by (rule metrics_of_counts_zero_denominators)
  have z1: "tp ?m + fp ?m = 0 \<longrightarrow> precision ?m = 0"
    by (simp add: metrics_of_counts_zero_denominators)
  have z2: "tp ?m + fn ?m = 0 \<longrightarrow> recall ?m = 0 \<and> true_positive_rate ?m = 0"
    by (simp add: metrics_of_counts_zero_denominators)
  have z3: "fp ?m + tn ?m = 0 \<longrightarrow> false_positive_rate ?m = 0"
    by (simp add: metrics_of_counts_zero_denominators)
  have z4: "precision ?m + recall ?m = 0 \<longrightarrow> f1 ?m = 0"
    using metrics_of_counts_zero_denominators(4) by blast
  show ?thesis
    using eq p r f q t z1 z2 z3 z4 by (intro exI [of _ ?m]) simp
qed

theorem compute_metrics_bounds_witness:
  "length [1, 0, 1, 1 :: int] = length [1, 1, 0, 1 :: int]
   \<and> (\<exists>m. compute_metrics [1, 0, 1, 1] [1, 1, 0, 1] = Inr m
           \<and> 0 \<le> precision m \<and> precision m \<le> 1
           \<and> 0 \<le> recall m \<and> recall m \<le> 1
           \<and> 0 \<le> f1 m \<and> f1 m \<le> 1
           \<and> 0 \<le> true_positive_rate m \<and> true_positive_rate m \<le> 1
           \<and> 0 \<le> false_positive_rate m \<and> false_positive_rate m \<le> 1
           \<and> (tp m + fp m = 0 \<longrightarrow> precision m = 0)
           \<and> (tp m + fn m = 0 \<longrightarrow> recall m = 0 \<and> true_positive_rate m = 0)
           \<and> (fp m + tn m = 0 \<longrightarrow> false_positive_rate m = 0)
           \<and> (precision m + recall m = 0 \<longrightarrow> f1 m = 0)
           \<and> true_positive_rate m = recall m)"
proof -
  have len: "length [1, 0, 1, 1 :: int] = length [1, 1, 0, 1 :: int]" by simp
  show ?thesis
    using len compute_metrics_bounds [OF len] by blast
qed

subsection \<open>Row order\<close>

lemma count_cell_mset: "mset ps = mset qs \<Longrightarrow> count_cell a b ps = count_cell a b qs"
proof -
  assume eq: "mset ps = mset qs"
  have "length (filter P xs) = size (filter_mset P (mset xs))" for P and xs :: "(int \<times> int) list"
    by (metis mset_filter size_mset)
  then show ?thesis
    by (simp add: count_cell_def eq)
qed

lemma zip_take_rows:
  "zip (take_rows yt idx) (take_rows yp idx) = map (\<lambda>i. (yt ! i, yp ! i)) idx"
  by (induction idx) (simp_all add: take_rows_def)

lemma zip_as_index_map:
  assumes "length yt = length yp"
  shows "map (\<lambda>i. (yt ! i, yp ! i)) [0..<length yt] = zip yt yp"
  using assms by (intro nth_equalityI) simp_all

lemma mset_zip_take_rows:
  assumes "length yt = length yp" "is_permutation idx (length yt)"
  shows "mset (zip (take_rows yt idx) (take_rows yp idx)) = mset (zip yt yp)"
proof -
  have "mset (zip (take_rows yt idx) (take_rows yp idx))
          = image_mset (\<lambda>i. (yt ! i, yp ! i)) (mset idx)"
    by (simp add: zip_take_rows)
  also have "\<dots> = image_mset (\<lambda>i. (yt ! i, yp ! i)) (mset [0..<length yt])"
    using assms(2) by (simp add: is_permutation_def)
  also have "\<dots> = mset (map (\<lambda>i. (yt ! i, yp ! i)) [0..<length yt])"
    by simp
  also have "\<dots> = mset (zip yt yp)"
    by (simp only: zip_as_index_map [OF assms(1)])
  finally show ?thesis .
qed

lemma length_take_rows: "length (take_rows ys idx) = length idx"
  by (simp add: take_rows_def)

text \<open>
  Claim C8. \<^verbatim>\<open>compute_metrics\<close> is a function of its two arguments alone (it reads and
  writes nothing else), and applying one permutation of the row positions to both label
  arrays leaves its result unchanged.
\<close>

theorem compute_metrics_permutation_invariant:
  assumes "length yt = length yp" and "is_permutation idx (length yt)"
  shows "compute_metrics (take_rows yt idx) (take_rows yp idx) = compute_metrics yt yp"
proof -
  have ms: "mset (zip (take_rows yt idx) (take_rows yp idx)) = mset (zip yt yp)"
    using assms by (rule mset_zip_take_rows)
  have len: "length (take_rows yt idx) = length (take_rows yp idx)"
    by (simp add: length_take_rows)
  show ?thesis
    unfolding compute_metrics_equal_length [OF len] compute_metrics_equal_length [OF assms(1)]
    by (simp only: count_cell_mset [OF ms])
qed

theorem compute_metrics_permutation_invariant_witness:
  "length [1, 0, 1 :: int] = length [1, 1, 0 :: int]
   \<and> is_permutation [2, 0, 1] (length [1, 0, 1 :: int])
   \<and> compute_metrics (take_rows [1, 0, 1] [2, 0, 1]) (take_rows [1, 1, 0] [2, 0, 1])
       = compute_metrics [1, 0, 1] [1, 1, 0]
   \<and> take_rows [1, 0, 1 :: int] [2, 0, 1] = [1, 1, 0]
   \<and> take_rows [1, 1, 0 :: int] [2, 0, 1] = [0, 1, 1]"
proof -
  have len: "length [1, 0, 1 :: int] = length [1, 1, 0 :: int]" by simp
  have "[0..<3] = [0, 1, 2]" by (simp add: upt_rec)
  then have perm: "is_permutation [2, 0, 1] (length [1, 0, 1 :: int])"
    by (simp add: is_permutation_def)
  have rows: "take_rows [1, 0, 1 :: int] [2, 0, 1] = [1, 1, 0]"
    "take_rows [1, 1, 0 :: int] [2, 0, 1] = [0, 1, 1]"
    by (simp_all add: take_rows_def)
  show ?thesis
    using len perm rows compute_metrics_permutation_invariant [OF len perm] by simp
qed
section \<open>Properties of the tuner\<close>

lemma inner_loop_run:
  "inner_loop L X v rs c ns st = run_candidates L X v rs (map (Pair c) ns) st"
  by (induction ns arbitrary: st) (simp_all split: sum.splits)

lemma run_candidates_append:
  "run_candidates L X v rs (xs @ ys) st =
     (case run_candidates L X v rs xs st of
        Inl e \<Rightarrow> Inl e
      | Inr st' \<Rightarrow> run_candidates L X v rs ys st')"
  by (induction xs arbitrary: st) (auto split: sum.splits)

lemma outer_loop_run:
  "outer_loop L X v rs cg ng st = run_candidates L X v rs (List.product cg ng) st"
  by (induction cg arbitrary: st)
     (simp_all add: inner_loop_run run_candidates_append split: sum.splits)

lemma tuple_gt_trans: "tuple_gt a b \<Longrightarrow> tuple_gt b c \<Longrightarrow> tuple_gt a c"
  by (auto simp: tuple_gt_def)

lemma tuple_gt_ge_trans: "tuple_gt a b \<Longrightarrow> \<not> tuple_gt c b \<Longrightarrow> tuple_gt a c"
  by (auto simp: tuple_gt_def)

lemma tuple_gt_asym: "tuple_gt a b \<Longrightarrow> \<not> tuple_gt b a"
  by (auto simp: tuple_gt_def)

lemma tuple_gt_irrefl: "\<not> tuple_gt a a"
  by (simp add: tuple_gt_def)

lemma compute_metrics_nonneg:
  assumes "compute_metrics yt yp = Inr m"
  shows "0 \<le> precision m" "0 \<le> f1 m"
proof -
  from assms obtain ps where m: "m = metrics_of_counts (count_cell 1 1 ps) (count_cell 0 0 ps)
                 (count_cell 0 1 ps) (count_cell 1 0 ps)"
    by (auto simp: compute_metrics_def split: sum.splits)
  show "0 \<le> precision m" unfolding m
    by (rule metrics_of_counts_precision(1) [OF count_cell_nonneg count_cell_nonneg])
  show "0 \<le> f1 m" unfolding m
    by (rule metrics_of_counts_f1(1) [OF count_cell_nonneg count_cell_nonneg count_cell_nonneg])
qed

lemma trial_key_nonneg:
  assumes "trial L X v rs c n = Inr r"
  shows "0 \<le> fst (key_of (snd (snd r)))" "0 \<le> snd (key_of (snd (snd r)))"
proof -
  from assms obtain yt yp where "compute_metrics yt yp = Inr (snd (snd r))"
    by (auto simp: trial_def split: sum.splits prod.splits)
  from compute_metrics_nonneg [OF this]
  show "0 \<le> fst (key_of (snd (snd r)))" "0 \<le> snd (key_of (snd (snd r)))"
    by (simp_all add: key_of_def)
qed

lemma trial_beats_initial:
  assumes "trial L X v rs c n = Inr r"
  shows "tuple_gt (key_of (snd (snd r))) (- 1, - 1)"
  using trial_key_nonneg [OF assms] by (simp add: tuple_gt_def)

lemma record_candidate_recorded:
  "record_candidate c n r st =
     (if tuple_gt (key_of (snd (snd r))) (best_key st) then recorded (c, n) r else st)"
  by (cases r) (simp add: record_candidate_def recorded_def)


lemma first_greatest_snoc_new:
  assumes "first_greatest ks i" "tuple_gt k (ks ! i)"
  shows "first_greatest (ks @ [k]) (length ks)"
proof -
  have a: "\<not> tuple_gt k' k" if "k' \<in> set ks" for k'
  proof -
    from that assms(1) have "\<not> tuple_gt k' (ks ! i)"
      by (simp add: first_greatest_def list_all_iff)
    with assms(2) show ?thesis by (auto simp: tuple_gt_def)
  qed
  have b: "tuple_gt k k'" if "k' \<in> set ks" for k'
  proof -
    from that assms(1) have "\<not> tuple_gt k' (ks ! i)"
      by (simp add: first_greatest_def list_all_iff)
    with assms(2) show ?thesis by (rule tuple_gt_ge_trans)
  qed
  show ?thesis
    using a b by (simp add: first_greatest_def list_all_iff tuple_gt_irrefl)
qed

lemma first_greatest_snoc_keep:
  assumes "first_greatest ks i" "\<not> tuple_gt k (ks ! i)"
  shows "first_greatest (ks @ [k]) i"
  using assms by (simp add: first_greatest_def list_all_iff nth_append)

lemma first_greatest_single: "first_greatest [k] 0"
  by (simp add: first_greatest_def tuple_gt_irrefl)

lemma run_candidates_selects:
  assumes "\<forall>x\<in>set xs. trial L X v rs (fst x) (snd x) = Inr (E x)" and "xs \<noteq> []"
  shows "\<exists>i. first_greatest (map (\<lambda>x. key_of (snd (snd (E x)))) xs) i
            \<and> run_candidates L X v rs xs initial_best = Inr (recorded (xs ! i) (E (xs ! i)))"
  using assms
proof (induction xs rule: rev_induct)
  case Nil
  then show ?case by simp
next
  case (snoc x xs)
  let ?K = "\<lambda>x. key_of (snd (snd (E x)))"
  obtain c n where x: "x = (c, n)" by (cases x)
  from snoc.prems have tx: "trial L X v rs c n = Inr (E x)"
    by (simp add: x)
  have step: "run_candidates L X v rs [x] st = Inr (record_candidate c n (E x) st)" for st
    by (simp add: x tx)
  show ?case
  proof (cases "xs = []")
    case True
    have "tuple_gt (?K x) (- 1, - 1)"
      using trial_beats_initial [OF tx] .
    then have "record_candidate c n (E x) initial_best = recorded x (E x)"
      by (simp add: record_candidate_recorded x)
    moreover have "run_candidates L X v rs (xs @ [x]) initial_best
                     = Inr (record_candidate c n (E x) initial_best)"
      unfolding True append_Nil by (rule step)
    ultimately have "run_candidates L X v rs (xs @ [x]) initial_best = Inr (recorded x (E x))"
      by simp
    with True show ?thesis
      by (intro exI [of _ 0]) (simp add: first_greatest_single)
  next
    case False
    with snoc obtain i where fg: "first_greatest (map ?K xs) i"
      and run: "run_candidates L X v rs xs initial_best = Inr (recorded (xs ! i) (E (xs ! i)))"
      by auto
    from fg have i: "i < length xs" by (simp add: first_greatest_def)
    then have Ki: "map ?K xs ! i = ?K (xs ! i)" by simp
    have bk: "best_key (recorded (xs ! i) (E (xs ! i))) = ?K (xs ! i)"
      by (simp add: recorded_def)
    have snoc_run: "run_candidates L X v rs (xs @ [x]) initial_best
                      = Inr (record_candidate c n (E x) (recorded (xs ! i) (E (xs ! i))))"
      by (simp only: run_candidates_append run sum.case step)
    show ?thesis
    proof (cases "tuple_gt (?K x) (?K (xs ! i))")
      case True
      then have "first_greatest (map ?K xs @ [?K x]) (length (map ?K xs))"
        using first_greatest_snoc_new [OF fg] Ki by simp
      moreover have "run_candidates L X v rs (xs @ [x]) initial_best = Inr (recorded x (E x))"
        unfolding snoc_run using True by (simp add: record_candidate_recorded bk x)
      ultimately show ?thesis
        by (intro exI [of _ "length xs"]) simp
    next
      case no: False
      then have "first_greatest (map ?K xs @ [?K x]) i"
        using first_greatest_snoc_keep [OF fg] Ki by simp
      moreover have "run_candidates L X v rs (xs @ [x]) initial_best
                       = Inr (recorded (xs ! i) (E (xs ! i)))"
        unfolding snoc_run using no by (simp add: record_candidate_recorded bk)
      ultimately show ?thesis
        using i by (intro exI [of _ i]) (simp add: nth_append)
    qed
  qed
qed

lemma finish_recorded: "finish (recorded x r) = Inr (fst r, fst (snd r), \<lparr>contamination = fst x, n_estimators = snd x\<rparr>, snd (snd r))"
  by (simp add: finish_def recorded_def)

lemma grid_order_product: "grid_order cg ng = List.product cg ng"
  by (induction cg) (simp_all add: grid_order_def)

lemma set_grid_order: "set (grid_order cg ng) = set cg \<times> set ng"
  by (simp add: grid_order_product)

lemma grid_order_empty: "grid_order cg ng = [] \<longleftrightarrow> cg = [] \<or> ng = []"
  by (cases cg) (auto simp: grid_order_def)

lemma grid_order_ascending:
  assumes "sorted_wrt (<) cg" and "sorted ng"
  shows "sorted_wrt candidate_le (grid_order cg ng)"
  using assms(1)
proof (induction cg)
  case Nil
  then show ?case by (simp add: grid_order_def)
next
  case (Cons c cg)
  have row: "sorted_wrt candidate_le (map (\<lambda>n. (c, n)) ng)"
    using assms(2) by (simp add: sorted_wrt_map candidate_le_def)
  have later: "candidate_le a b" if "a \<in> set (map (\<lambda>n. (c, n)) ng)" "b \<in> set (grid_order cg ng)" for a b
  proof -
    from that(2) have "fst b \<in> set cg" by (auto simp: set_grid_order)
    with Cons.prems have "c < fst b" by auto
    with that(1) show ?thesis by (auto simp: candidate_le_def)
  qed
  have "grid_order (c # cg) ng = map (\<lambda>n. (c, n)) ng @ grid_order cg ng"
    by (simp add: grid_order_def)
  with row later Cons show ?case
    by (simp add: sorted_wrt_append)
qed

lemma main_grids_ascending:
  "sorted_wrt candidate_le (grid_order main_contamination_grid main_n_estimators_grid)"
  by (rule grid_order_ascending)
     (simp_all add: main_contamination_grid_def main_n_estimators_grid_def)

lemma outer_loop_grid_order:
  "outer_loop L X v rs cg ng st = run_candidates L X v rs (grid_order cg ng) st"
  by (simp add: outer_loop_run grid_order_product)



subsection \<open>The ambient state of a run\<close>

text \<open>
  The ambient state reaches a run only through the forest, and the forest is always given
  the seed: when a seeded forest ignores the ambient state, so does every step of the run.
\<close>

lemma make_X_ambient: "make_X (L\<lparr>ambient := w\<rparr>) df = make_X L df"
  by (simp add: make_X_def split: sum.splits)

lemma trial_ambient:
  assumes "\<And>w w' n c seed X. forest_fit L w n c (Some seed) X = forest_fit L w' n c (Some seed) X"
  shows "trial (L\<lparr>ambient := w\<rparr>) X validation random_state c n
           = trial L X validation random_state c n"
proof -
  have "forest_fit L w n c (Some random_state) Y = forest_fit L (ambient L) n c (Some random_state) Y"
    for Y
    by (rule assms)
  then show ?thesis
    by (simp add: trial_def make_X_ambient split: sum.splits prod.splits)
qed

lemma inner_loop_ambient:
  assumes "\<And>w w' n c seed X. forest_fit L w n c (Some seed) X = forest_fit L w' n c (Some seed) X"
  shows "inner_loop (L\<lparr>ambient := w\<rparr>) X validation random_state c ns st
           = inner_loop L X validation random_state c ns st"
  by (induction ns arbitrary: st) (simp_all add: trial_ambient [OF assms] split: sum.splits)

lemma outer_loop_ambient:
  assumes "\<And>w w' n c seed X. forest_fit L w n c (Some seed) X = forest_fit L w' n c (Some seed) X"
  shows "outer_loop (L\<lparr>ambient := w\<rparr>) X validation random_state cs ns st
           = outer_loop L X validation random_state cs ns st"
  by (induction cs arbitrary: st) (simp_all add: inner_loop_ambient [OF assms] split: sum.splits)

subsection \<open>Concrete runs\<close>

lemma constant_train_make_X:
  "make_X (threshold_library tok) constant_train = Inr [[1, 1, 1, 1], [1, 1, 1, 1]]"
  by (simp add: make_X_def select_columns_def RETINA_FEATURE_COLUMNS_def constant_train_def
      flow_columns_def cell_at_def threshold_library_def)


lemma small_validation_make_X:
  "make_X (threshold_library tok) small_validation
     = Inr [[0, 0, 0, 0], [3 / 4, 0, 0, 0], [2, 0, 0, 0], [20, 0, 0, 0]]"
  by (simp add: make_X_def select_columns_def RETINA_FEATURE_COLUMNS_def small_validation_def
      flow_columns_def cell_at_def threshold_library_def)

lemma small_validation_labels:
  "column_values small_validation ''is_attack'' = Inr [Num 0, Num 0, Num 1, Num 1]"
  by (simp add: column_values_def small_validation_def flow_columns_def cell_at_def)

lemma threshold_library_calls:
  "to_numpy_int (threshold_library tok) [Num 0, Num 0, Num 1, Num 1] = Inr [0, 0, 1, 1]"
  "fit_transform (threshold_library tok) [[1, 1, 1, 1], [1, 1, 1, 1]]
     = Inr (tok, [[1, 1, 1, 1], [1, 1, 1, 1]])"
  "fit_transform (threshold_library tok) [] = Inl (ValueError ''Found array with 0 sample(s)'')"
  "transform (threshold_library tok) s X = Inr X"
  "0 < c \<Longrightarrow> c \<le> 1 / 2 \<Longrightarrow> 1 \<le> n \<Longrightarrow>
     forest_fit (threshold_library tok) w n c (Some 42) X = Inr (c, n)"
  "ambient (threshold_library tok) = 1"
  by (simp_all add: threshold_library_def)

lemma threshold_library_predict:
  "predict (threshold_library tok) (1 / 1000, n)
     [[0, 0, 0, 0], [3 / 4, 0, 0, 0], [2, 0, 0, 0], [20, 0, 0, 0]] = Inr [1, 1, 1, - 1]"
  "predict (threshold_library tok) (1 / 100, n)
     [[0, 0, 0, 0], [3 / 4, 0, 0, 0], [2, 0, 0, 0], [20, 0, 0, 0]] = Inr [1, 1, - 1, - 1]"
  "predict (threshold_library tok) (1 / 50, n)
     [[0, 0, 0, 0], [3 / 4, 0, 0, 0], [2, 0, 0, 0], [20, 0, 0, 0]] = Inr [1, - 1, - 1, - 1]"
  by (simp_all add: threshold_library_def)

lemma small_validation_metrics:
  "compute_metrics [0, 0, 1, 1] [0, 0, 0, 1] = Inr metrics_low"
  "compute_metrics [0, 0, 1, 1] [0, 0, 1, 1] = Inr metrics_mid"
  "compute_metrics [0, 0, 1, 1] [0, 1, 1, 1] = Inr metrics_high"
  by (simp_all add: compute_metrics_def broadcast_def count_cell_def metrics_of_counts_def
      Let_def metrics_low_def metrics_mid_def metrics_high_def)

lemma threshold_library_trial:
  assumes "1 \<le> n"
  shows "trial (threshold_library tok) [[1, 1, 1, 1], [1, 1, 1, 1]] small_validation 42 (1 / 1000) n
           = Inr ((1 / 1000, n), tok, metrics_low)"
    "trial (threshold_library tok) [[1, 1, 1, 1], [1, 1, 1, 1]] small_validation 42 (1 / 100) n
           = Inr ((1 / 100, n), tok, metrics_mid)"
    "trial (threshold_library tok) [[1, 1, 1, 1], [1, 1, 1, 1]] small_validation 42 (1 / 50) n
           = Inr ((1 / 50, n), tok, metrics_high)"
  using assms
  by (simp_all add: trial_def threshold_library_calls small_validation_make_X
      threshold_library_predict small_validation_labels small_validation_metrics)


lemma small_keys:
  "key_of metrics_low = (1, 2 / 3)" "key_of metrics_mid = (1, 1)" "key_of metrics_high = (2 / 3, 4 / 5)"
  by (simp_all add: key_of_def metrics_low_def metrics_mid_def metrics_high_def)

section \<open>Claims about the tuner\<close>

text \<open>
  Claim C1, as amended. When \<^verbatim>\<open>make_X\<close> accepts the training frame, every candidate
  trial succeeds and both grids are non-empty, \<^verbatim>\<open>tune_iforest\<close> returns the model, the
  scaler, the hyperparameters and the metrics of one candidate: the one whose
  (precision, F1) key is lexicographically greatest, and the first such in the order in
  which the loops visit the candidates. That order is \<open>grid_order\<close>: the contamination
  grid outside and the ensemble-size grid inside, each in the order of its list (which is
  ascending when the lists are ascending, as the two lists that \<^verbatim>\<open>main\<close> passes are).
\<close>

theorem tune_iforest_keeps_first_greatest:
  assumes "make_X L normal_train = Inr X"
    and "\<forall>c\<in>set contamination_grid. \<forall>n\<in>set n_estimators_grid.
           trial L X validation random_state c n = Inr (E (c, n))"
    and "contamination_grid \<noteq> []" and "n_estimators_grid \<noteq> []"
  shows "\<exists>i. first_greatest
               (map (\<lambda>x. key_of (snd (snd (E x)))) (grid_order contamination_grid n_estimators_grid)) i
           \<and> tune_iforest L normal_train validation contamination_grid n_estimators_grid random_state
               = Inr (fst (E (grid_order contamination_grid n_estimators_grid ! i)),
                      fst (snd (E (grid_order contamination_grid n_estimators_grid ! i))),
                      \<lparr>contamination = fst (grid_order contamination_grid n_estimators_grid ! i),
                       n_estimators = snd (grid_order contamination_grid n_estimators_grid ! i)\<rparr>,
                      snd (snd (E (grid_order contamination_grid n_estimators_grid ! i))))"
proof -
  let ?xs = "grid_order contamination_grid n_estimators_grid"
  have all: "\<forall>x\<in>set ?xs. trial L X validation random_state (fst x) (snd x) = Inr (E x)"
    using assms(2) by (auto simp: set_grid_order)
  have ne: "?xs \<noteq> []"
    using assms(3,4) by (simp add: grid_order_empty)
  from run_candidates_selects [OF all ne] obtain i
    where fg: "first_greatest (map (\<lambda>x. key_of (snd (snd (E x)))) ?xs) i"
      and run: "run_candidates L X validation random_state ?xs initial_best
                  = Inr (recorded (?xs ! i) (E (?xs ! i)))"
    by blast
  have "tune_iforest L normal_train validation contamination_grid n_estimators_grid random_state
          = finish (recorded (?xs ! i) (E (?xs ! i)))"
    by (simp add: tune_iforest_def assms(1) outer_loop_grid_order run)
  with fg show ?thesis
    by (intro exI [of _ i]) (simp add: finish_recorded)
qed

text \<open>
  A run of the theorem for C1: three contamination values and two ensemble sizes on the
  small library. The theorem alone fixes the result, the candidate at position \<open>2\<close>:
  contamination \<open>1/100\<close> with \<open>100\<close> estimators, which ties with \<open>200\<close> estimators.
\<close>

theorem tune_iforest_keeps_first_greatest_witness:
  "make_X (threshold_library ()) constant_train = Inr [[1, 1, 1, 1], [1, 1, 1, 1]]
   \<and> list_all (\<lambda>c. list_all (\<lambda>n.
         trial (threshold_library ()) [[1, 1, 1, 1], [1, 1, 1, 1]] small_validation 42 c n
           = Inr (small_results () (c, n))) [100, 200]) [1 / 1000, 1 / 100, 1 / 50]
   \<and> [1 / 1000, 1 / 100, 1 / 50 :: real] \<noteq> [] \<and> [100, 200 :: int] \<noteq> []
   \<and> tune_iforest (threshold_library ()) constant_train small_validation
         [1 / 1000, 1 / 100, 1 / 50] [100, 200] 42
       = Inr ((1 / 100, 100), (), \<lparr>contamination = 1 / 100, n_estimators = 100\<rparr>, metrics_mid)"
proof -
  let ?cg = "[1 / 1000, 1 / 100, 1 / 50 :: real]" and ?ng = "[100, 200 :: int]"
  have h1: "make_X (threshold_library ()) constant_train = Inr [[1, 1, 1, 1], [1, 1, 1, 1]]"
    by (rule constant_train_make_X)
  have h2: "\<forall>c\<in>set ?cg. \<forall>n\<in>set ?ng.
         trial (threshold_library ()) [[1, 1, 1, 1], [1, 1, 1, 1]] small_validation 42 c n
           = Inr (small_results () (c, n))"
    by (simp add: threshold_library_trial small_results_def)
  have h3: "?cg \<noteq> []" and h4: "?ng \<noteq> []" by simp_all
  have order: "grid_order ?cg ?ng
      = [(1 / 1000, 100), (1 / 1000, 200), (1 / 100, 100), (1 / 100, 200), (1 / 50, 100), (1 / 50, 200)]"
    by (simp add: grid_order_def)
  have keys: "map (\<lambda>x. key_of (snd (snd (small_results () x)))) (grid_order ?cg ?ng)
      = [(1, 2 / 3), (1, 2 / 3), (1, 1), (1, 1), (2 / 3, 4 / 5), (2 / 3, 4 / 5)]"
    by (simp add: order small_results_def small_keys)
  from tune_iforest_keeps_first_greatest [OF h1 h2 h3 h4] obtain i
    where fg: "first_greatest
                 [(1, 2 / 3), (1, 2 / 3), (1, 1), (1, 1), (2 / 3, 4 / 5), (2 / 3, 4 / 5)] i"
      and res: "tune_iforest (threshold_library ()) constant_train small_validation ?cg ?ng 42
               = Inr (fst (small_results () (grid_order ?cg ?ng ! i)),
                      fst (snd (small_results () (grid_order ?cg ?ng ! i))),
                      \<lparr>contamination = fst (grid_order ?cg ?ng ! i),
                       n_estimators = snd (grid_order ?cg ?ng ! i)\<rparr>,
                      snd (snd (small_results () (grid_order ?cg ?ng ! i))))"
    unfolding keys by blast
  from fg have "i < 6" by (simp add: first_greatest_def)
  then have "i = 0 \<or> i = 1 \<or> i = 2 \<or> i = 3 \<or> i = 4 \<or> i = 5" by arith
  with fg have i: "i = 2"
    by (auto simp: first_greatest_def tuple_gt_def)
  have "tune_iforest (threshold_library ()) constant_train small_validation ?cg ?ng 42
       = Inr ((1 / 100, 100), (), \<lparr>contamination = 1 / 100, n_estimators = 100\<rparr>, metrics_mid)"
    unfolding res i order by (simp add: small_results_def)
  moreover have "list_all (\<lambda>c. list_all (\<lambda>n.
         trial (threshold_library ()) [[1, 1, 1, 1], [1, 1, 1, 1]] small_validation 42 c n
           = Inr (small_results () (c, n))) ?ng) ?cg"
    unfolding list_all_iff by (rule h2)
  ultimately show ?thesis using h1 h3 h4 by blast
qed

text \<open>
  Claim C1 as stated fails: the order of evaluation is the order of the lists, not the
  ascending order. With the ensemble-size grid \<open>[200, 100]\<close> the two candidates tie on
  their key; in ascending order the candidate with \<open>100\<close> estimators is the first
  encountered, and \<^verbatim>\<open>tune_iforest\<close> returns the one with \<open>200\<close>.
\<close>

theorem tune_iforest_ascending_counterexample:
  "tune_iforest (threshold_library ()) constant_train small_validation [1 / 100] [200, 100] 42
     = Inr ((1 / 100, 200), (), \<lparr>contamination = 1 / 100, n_estimators = 200\<rparr>, metrics_mid)
   \<and> candidate_outcome (threshold_library ()) constant_train small_validation 42 (1 / 100) 100
       = Inr metrics_mid
   \<and> candidate_outcome (threshold_library ()) constant_train small_validation 42 (1 / 100) 200
       = Inr metrics_mid
   \<and> grid_order (sort [1 / 100]) (sort [200, 100]) ! 0 = (1 / 100, 100)"
  by (simp add: tune_iforest_def candidate_outcome_def constant_train_make_X
      threshold_library_trial record_candidate_def small_keys tuple_gt_def finish_def
      grid_order_def)

text \<open>
  Claim C10. When both grids are non-empty and the frames are accepted (\<^verbatim>\<open>make_X\<close> and
  every candidate trial return), the key of the first candidate is at least \<open>(0, 0)\<close>
  and so strictly greater than the initial \<open>(-1, -1)\<close>; after the loops all four
  \<^verbatim>\<open>best_*\<close> variables are set, no assertion fails and \<^verbatim>\<open>tune_iforest\<close> returns.
\<close>

theorem tune_iforest_assertions_hold:
  fixes L :: "('w, 'x, 's, 'm) library"
  assumes "make_X L normal_train = Inr X"
    and "\<forall>c\<in>set contamination_grid. \<forall>n\<in>set n_estimators_grid.
           \<exists>r. trial L X validation random_state c n = Inr r"
    and "contamination_grid \<noteq> []" and "n_estimators_grid \<noteq> []"
  shows "\<exists>r st res.
           trial L X validation random_state (hd contamination_grid) (hd n_estimators_grid) = Inr r
           \<and> 0 \<le> fst (key_of (snd (snd r))) \<and> 0 \<le> snd (key_of (snd (snd r)))
           \<and> tuple_gt (key_of (snd (snd r))) (- 1, - 1)
           \<and> outer_loop L X validation random_state contamination_grid n_estimators_grid initial_best
               = Inr st
           \<and> best_model st \<noteq> None \<and> best_scaler st \<noteq> None
           \<and> best_params st \<noteq> None \<and> best_metrics st \<noteq> None
           \<and> tune_iforest L normal_train validation contamination_grid n_estimators_grid random_state
               = Inr res"
proof -
  let ?xs = "grid_order contamination_grid n_estimators_grid"
  let ?E = "\<lambda>x. projr (trial L X validation random_state (fst x) (snd x))"
  have all: "\<forall>x\<in>set ?xs. trial L X validation random_state (fst x) (snd x) = Inr (?E x)"
  proof
    fix x assume "x \<in> set ?xs"
    then have "fst x \<in> set contamination_grid" "snd x \<in> set n_estimators_grid"
      by (auto simp: set_grid_order)
    with assms(2) obtain r where "trial L X validation random_state (fst x) (snd x) = Inr r"
      by blast
    then show "trial L X validation random_state (fst x) (snd x) = Inr (?E x)" by simp
  qed
  have ne: "?xs \<noteq> []"
    using assms(3,4) by (simp add: grid_order_empty)
  have "hd contamination_grid \<in> set contamination_grid" "hd n_estimators_grid \<in> set n_estimators_grid"
    using assms(3,4) by simp_all
  with assms(2) obtain r
    where r: "trial L X validation random_state (hd contamination_grid) (hd n_estimators_grid) = Inr r"
    by blast
  from run_candidates_selects [OF all ne] obtain i
    where run: "run_candidates L X validation random_state ?xs initial_best
                  = Inr (recorded (?xs ! i) (?E (?xs ! i)))"
    by blast
  let ?st = "recorded (?xs ! i) (?E (?xs ! i)) :: ('s, 'm) best"
  have loop: "outer_loop L X validation random_state contamination_grid n_estimators_grid initial_best
                = Inr ?st"
    by (simp add: outer_loop_grid_order run)
  have some: "best_model ?st \<noteq> None" "best_scaler ?st \<noteq> None"
    "best_params ?st \<noteq> None" "best_metrics ?st \<noteq> None"
    by (simp_all add: recorded_def)
  have res: "tune_iforest L normal_train validation contamination_grid n_estimators_grid random_state
               = finish ?st"
    by (simp add: tune_iforest_def assms(1) loop)
  note res' = res [unfolded finish_recorded]
  note nonneg = trial_key_nonneg [OF r] and beats = trial_beats_initial [OF r]
  show ?thesis
    apply (rule exI [of _ r])
    apply (rule exI [of _ ?st])
    apply (rule exI)
    apply (intro conjI)
             apply (rule r)
            apply (rule nonneg(1))
           apply (rule nonneg(2))
          apply (rule beats)
         apply (rule loop)
        apply (rule some(1))
       apply (rule some(2))
      apply (rule some(3))
     apply (rule some(4))
    apply (rule res')
    done
qed

theorem tune_iforest_assertions_hold_witness:
  "make_X (threshold_library ()) constant_train = Inr [[1, 1, 1, 1], [1, 1, 1, 1]]
   \<and> list_all (\<lambda>c. list_all (\<lambda>n.
         \<exists>r. trial (threshold_library ()) [[1, 1, 1, 1], [1, 1, 1, 1]] small_validation 42 c n = Inr r)
       [100]) [1 / 1000, 1 / 50]
   \<and> [1 / 1000, 1 / 50 :: real] \<noteq> [] \<and> [100 :: int] \<noteq> []
   \<and> (\<exists>r st res.
           trial (threshold_library ()) [[1, 1, 1, 1], [1, 1, 1, 1]] small_validation 42
             (hd [1 / 1000, 1 / 50]) (hd [100]) = Inr r
           \<and> 0 \<le> fst (key_of (snd (snd r))) \<and> 0 \<le> snd (key_of (snd (snd r)))
           \<and> tuple_gt (key_of (snd (snd r))) (- 1, - 1)
           \<and> outer_loop (threshold_library ()) [[1, 1, 1, 1], [1, 1, 1, 1]] small_validation 42
                [1 / 1000, 1 / 50] [100] initial_best = Inr st
           \<and> best_model st \<noteq> None \<and> best_scaler st \<noteq> None
           \<and> best_params st \<noteq> None \<and> best_metrics st \<noteq> None
           \<and> tune_iforest (threshold_library ()) constant_train small_validation
                [1 / 1000, 1 / 50] [100] 42 = Inr res)"
proof -
  have h1: "make_X (threshold_library ()) constant_train = Inr [[1, 1, 1, 1], [1, 1, 1, 1]]"
    by (rule constant_train_make_X)
  have h2: "\<forall>c\<in>set [1 / 1000, 1 / 50]. \<forall>n\<in>set [100].
         \<exists>r. trial (threshold_library ()) [[1, 1, 1, 1], [1, 1, 1, 1]] small_validation 42 c n = Inr r"
  proof (intro ballI)
    fix c :: real and n :: int
    assume "c \<in> set [1 / 1000, 1 / 50]" and "n \<in> set [100]"
    then have c: "c = 1 / 1000 \<or> c = 1 / 50" and n: "n = 100" by simp_all
    from c show "\<exists>r. trial (threshold_library ()) [[1, 1, 1, 1], [1, 1, 1, 1]] small_validation 42 c n = Inr r"
    proof
      assume c1: "c = 1 / 1000"
      show ?thesis unfolding n c1 by (rule exI, rule threshold_library_trial(1)) simp
    next
      assume c3: "c = 1 / 50"
      show ?thesis unfolding n c3 by (rule exI, rule threshold_library_trial(3)) simp
    qed
  qed
  have h3: "[1 / 1000, 1 / 50 :: real] \<noteq> []" and h4: "[100 :: int] \<noteq> []" by simp_all
  note concl = tune_iforest_assertions_hold [OF h1 h2 h3 h4]
  have h2': "list_all (\<lambda>c. list_all (\<lambda>n.
         \<exists>r. trial (threshold_library ()) [[1, 1, 1, 1], [1, 1, 1, 1]] small_validation 42 c n = Inr r)
       [100]) [1 / 1000, 1 / 50]"
    unfolding list_all_iff by (rule h2)
  show ?thesis
    by (intro conjI h1 h2' h3 h4 concl)
qed





text \<open>
  Claim C9. A run of \<^verbatim>\<open>tune_iforest\<close> takes place in an ambient state, from which a forest
  that is given no seed draws its randomness; \<^verbatim>\<open>tune_iforest\<close> gives the seed
  \<^verbatim>\<open>random_state\<close> to every forest it fits. So when the forests of the library, given a
  seed, do not depend on the ambient state (which is what scikit-learn promises for an
  integer \<^verbatim>\<open>random_state\<close>), two runs with the same seed, the same frames and the same
  grids, in any two ambient states, return the same result: the same selected
  hyperparameters and validation metrics, and the same model and scaler.
\<close>

theorem tune_iforest_deterministic:
  assumes "\<And>w w' n c seed X. forest_fit L w n c (Some seed) X = forest_fit L w' n c (Some seed) X"
  shows "tune_iforest (L\<lparr>ambient := w1\<rparr>) normal_train validation contamination_grid
           n_estimators_grid random_state
         = tune_iforest (L\<lparr>ambient := w2\<rparr>) normal_train validation contamination_grid
             n_estimators_grid random_state"
proof -
  have "tune_iforest (L\<lparr>ambient := w\<rparr>) normal_train validation contamination_grid
           n_estimators_grid random_state
         = tune_iforest L normal_train validation contamination_grid n_estimators_grid random_state"
    for w
    by (simp add: tune_iforest_def make_X_ambient outer_loop_ambient [OF assms] split: sum.splits)
  then show ?thesis by simp
qed

text \<open>
  Two runs for C9 on the small library, in the ambient states \<open>1\<close> and \<open>7\<close> with the seed
  \<open>42\<close>: the same result. The seed is what makes it so: without a seed the forest of
  the small library depends on the ambient state, and with the seed \<open>43\<close> the run selects
  other metrics.
\<close>

theorem tune_iforest_deterministic_witness:
  "(\<forall>w w' n c seed X. forest_fit (threshold_library ()) w n c (Some seed) X
                        = forest_fit (threshold_library ()) w' n c (Some seed) X)
   \<and> tune_iforest (threshold_library ()\<lparr>ambient := 1\<rparr>) constant_train small_validation
         [1 / 1000, 1 / 100, 1 / 50] [100, 200] 42
       = tune_iforest (threshold_library ()\<lparr>ambient := 7\<rparr>) constant_train small_validation
           [1 / 1000, 1 / 100, 1 / 50] [100, 200] 42
   \<and> tune_iforest (threshold_library ()\<lparr>ambient := 7\<rparr>) constant_train small_validation
         [1 / 1000, 1 / 100, 1 / 50] [100, 200] 42
       = Inr ((1 / 100, 100), (), \<lparr>contamination = 1 / 100, n_estimators = 100\<rparr>, metrics_mid)
   \<and> forest_fit (threshold_library ()) 1 100 (1 / 100) None []
       \<noteq> forest_fit (threshold_library ()) 7 100 (1 / 100) None []
   \<and> tune_iforest (threshold_library ()) constant_train small_validation [1 / 100] [100] 43
       = Inr ((1 / 1000, 100), (), \<lparr>contamination = 1 / 100, n_estimators = 100\<rparr>, metrics_low)"
proof -
  have h: "forest_fit (threshold_library ()) w n c (Some seed) X
             = forest_fit (threshold_library ()) w' n c (Some seed) X" for w w' n c seed X
    by (simp add: threshold_library_def)
  note concl = tune_iforest_deterministic [of "threshold_library ()", OF h, of 1 constant_train
      small_validation "[1 / 1000, 1 / 100, 1 / 50]" "[100, 200]" 42 7]
  have same: "threshold_library ()\<lparr>ambient := 1\<rparr> = threshold_library ()"
    by (simp add: threshold_library_def)
  have val: "tune_iforest (threshold_library ()) constant_train small_validation
         [1 / 1000, 1 / 100, 1 / 50] [100, 200] 42
       = Inr ((1 / 100, 100), (), \<lparr>contamination = 1 / 100, n_estimators = 100\<rparr>, metrics_mid)"
    by (simp add: tune_iforest_def constant_train_make_X threshold_library_trial
        record_candidate_def small_keys tuple_gt_def finish_def)
  have val7: "tune_iforest (threshold_library ()\<lparr>ambient := 7\<rparr>) constant_train small_validation
         [1 / 1000, 1 / 100, 1 / 50] [100, 200] 42
       = Inr ((1 / 100, 100), (), \<lparr>contamination = 1 / 100, n_estimators = 100\<rparr>, metrics_mid)"
    using concl unfolding same val by simp
  have unseeded: "forest_fit (threshold_library ()) 1 100 (1 / 100) None []
       \<noteq> forest_fit (threshold_library ()) 7 100 (1 / 100) None []"
    by (simp add: threshold_library_def)
  have fit43: "forest_fit (threshold_library ()) w 100 (1 / 100) (Some 43) X = Inr (1 / 1000, 100)"
    for w X
    by (simp add: threshold_library_def)
  have pred43: "predict (threshold_library ()) (1 / 1000, 100)
     [[0, 0, 0, 0], [3 / 4, 0, 0, 0], [2, 0, 0, 0], [20, 0, 0, 0]] = Inr [1, 1, 1, - 1]"
    by (simp add: threshold_library_def)
  have trial43: "trial (threshold_library ()) [[1, 1, 1, 1], [1, 1, 1, 1]] small_validation 43 (1 / 100) 100
           = Inr ((1 / 1000, 100), (), metrics_low)"
    by (simp add: trial_def threshold_library_calls(1,2,4) fit43 small_validation_make_X
        pred43 small_validation_labels small_validation_metrics)
  have val43: "tune_iforest (threshold_library ()) constant_train small_validation [1 / 100] [100] 43
       = Inr ((1 / 1000, 100), (), \<lparr>contamination = 1 / 100, n_estimators = 100\<rparr>, metrics_low)"
    by (simp add: tune_iforest_def constant_train_make_X trial43
        record_candidate_def small_keys tuple_gt_def finish_def)
  have h': "\<forall>w w' n c seed X. forest_fit (threshold_library ()) w n c (Some seed) X
                        = forest_fit (threshold_library ()) w' n c (Some seed) X"
    using h by blast
  show ?thesis
    by (intro conjI h' concl val7 unseeded val43)
qed

section \<open>Claims about the preprocessor\<close>

subsection \<open>Contamination tuning\<close>

lemma contamination_loop_skips:
  "contamination_loop score cs st
     = contamination_loop score (filter (\<lambda>c. \<not> isl (score c)) cs) st"
proof (induction cs arbitrary: st)
  case Nil
  then show ?case by simp
next
  case (Cons c cs)
  obtain bc bs sc where st: "st = (bc, bs, sc)" by (cases st)
  show ?case
    unfolding st using Cons.IH
    by (cases "score c") (auto split: option.splits)
qed

lemma contamination_loop_best:
  assumes "contamination_loop score cs (Some b, s, m) = (bc, bs, m')"
  shows "\<exists>c. bc = Some c \<and> (c = b \<or> c \<in> set cs)"
  using assms
proof (induction cs arbitrary: b s m)
  case Nil
  then show ?case by simp
next
  case (Cons c cs)
  show ?case
  proof (cases "score c")
    case (Inl e)
    with Cons.prems have "contamination_loop score cs (Some b, s, m) = (bc, bs, m')" by simp
    from Cons.IH [OF this] show ?thesis by auto
  next
    case (Inr v)
    show ?thesis
    proof (cases v)
      case None
      with Inr Cons.prems
      have "contamination_loop score cs (Some b, s, m(c \<mapsto> None)) = (bc, bs, m')" by simp
      from Cons.IH [OF this] show ?thesis by auto
    next
      case (Some ms)
      show ?thesis
      proof (cases "ms > s")
        case True
        with Inr Some Cons.prems
        have "contamination_loop score cs (Some c, ms, m(c \<mapsto> Some ms)) = (bc, bs, m')" by simp
        from Cons.IH [OF this] show ?thesis by auto
      next
        case False
        with Inr Some Cons.prems
        have "contamination_loop score cs (Some b, s, m(c \<mapsto> Some ms)) = (bc, bs, m')" by simp
        from Cons.IH [OF this] show ?thesis by auto
      qed
    qed
  qed
qed

lemma contamination_loop_never_beaten:
  assumes "\<forall>c\<in>set cs. \<forall>ms. score c = Inr (Some ms) \<longrightarrow> ms \<le> s"
  shows "fst (contamination_loop score cs (b, s, m)) = b"
    and "fst (snd (contamination_loop score cs (b, s, m))) = s"
  using assms
proof (induction cs arbitrary: m)
  case Nil
  { case 1 show ?case by simp }
  { case 2 show ?case by simp }
next
  case (Cons c cs)
  { case 1
    then have rest: "\<forall>c\<in>set cs. \<forall>ms. score c = Inr (Some ms) \<longrightarrow> ms \<le> s" by simp
    from 1 have "\<And>ms. score c = Inr (Some ms) \<Longrightarrow> \<not> ms > s" by fastforce
    then show ?case using Cons.IH(1) [OF rest]
      by (auto split: sum.splits option.splits) }
  { case 2
    then have rest: "\<forall>c\<in>set cs. \<forall>ms. score c = Inr (Some ms) \<longrightarrow> ms \<le> s" by simp
    from 2 have "\<And>ms. score c = Inr (Some ms) \<Longrightarrow> \<not> ms > s" by fastforce
    then show ?case using Cons.IH(2) [OF rest]
      by (auto split: sum.splits option.splits) }
qed

lemma linspace_member:
  "i < num \<Longrightarrow> a + real i * ((b - a) / real (num - 1)) \<in> set (linspace a b num)"
  unfolding linspace_def set_map set_upt by (rule imageI) simp

lemma linspace_between:
  assumes "c \<in> set (linspace a b 10)"
  shows "min a b \<le> c \<and> c \<le> max a b"
proof -
  from assms obtain i where i: "i < 10" and c: "c = a + real i * ((b - a) / 9)"
    by (auto simp: linspace_def)
  let ?t = "real i / 9"
  have t: "0 \<le> ?t" "?t \<le> 1" using i by simp_all
  have c': "c = (1 - ?t) * a + ?t * b" unfolding c by (simp add: field_simps)
  have "min a b = (1 - ?t) * min a b + ?t * min a b" by (simp add: algebra_simps)
  also have "\<dots> \<le> (1 - ?t) * a + ?t * b"
    using t by (intro add_mono mult_left_mono) simp_all
  finally have lo: "min a b \<le> c" unfolding c' .
  have "(1 - ?t) * a + ?t * b \<le> (1 - ?t) * max a b + ?t * max a b"
    using t by (intro add_mono mult_left_mono) simp_all
  also have "\<dots> = max a b" by (simp add: algebra_simps)
  finally have hi: "c \<le> max a b" unfolding c' .
  from lo hi show ?thesis ..
qed

lemma contamination_loop_first_best:
  assumes "contamination_loop score cs (Some b, s, m) = (bc, bs, m')"
  shows "((\<forall>c\<in>set cs. \<forall>ms. score c = Inr (Some ms) \<longrightarrow> ms \<le> s) \<and> bc = Some b \<and> bs = s)
       \<or> (\<exists>pre c post ms. cs = pre @ c # post \<and> bc = Some c \<and> bs = ms
              \<and> score c = Inr (Some ms) \<and> s < ms
              \<and> (\<forall>x\<in>set pre. \<forall>ms'. score x = Inr (Some ms') \<longrightarrow> ms' < ms)
              \<and> (\<forall>x\<in>set post. \<forall>ms'. score x = Inr (Some ms') \<longrightarrow> ms' \<le> ms))"
  using assms
proof (induction cs arbitrary: b s m)
  case Nil
  then show ?case by simp
next
  case (Cons c cs)
  let ?alt1 = "\<lambda>cs b s. (\<forall>c\<in>set cs. \<forall>ms. score c = Inr (Some ms) \<longrightarrow> ms \<le> s) \<and> bc = Some b \<and> bs = s"
  let ?alt2 = "\<lambda>cs s. \<exists>pre c post ms. cs = pre @ c # post \<and> bc = Some c \<and> bs = ms
              \<and> score c = Inr (Some ms) \<and> s < ms
              \<and> (\<forall>x\<in>set pre. \<forall>ms'. score x = Inr (Some ms') \<longrightarrow> ms' < ms)
              \<and> (\<forall>x\<in>set post. \<forall>ms'. score x = Inr (Some ms') \<longrightarrow> ms' \<le> ms)"
  have lift: "?alt2 (c # cs) s'" if a: "?alt2 cs s0" and le: "s' \<le> s0"
    and c: "\<And>ms'. score c = Inr (Some ms') \<Longrightarrow> ms' \<le> s0" for s0 s'
  proof -
    from a obtain pre x post ms where d: "cs = pre @ x # post" "bc = Some x" "bs = ms"
      "score x = Inr (Some ms)" "s0 < ms"
      "\<forall>x\<in>set pre. \<forall>ms'. score x = Inr (Some ms') \<longrightarrow> ms' < ms"
      "\<forall>x\<in>set post. \<forall>ms'. score x = Inr (Some ms') \<longrightarrow> ms' \<le> ms"
      by blast
    have pre: "\<forall>y\<in>set (c # pre). \<forall>ms'. score y = Inr (Some ms') \<longrightarrow> ms' < ms"
      using d(5,6) c by fastforce
    have "c # cs = (c # pre) @ x # post" using d(1) by simp
    moreover have "s' < ms" using le d(5) by simp
    ultimately show ?thesis using d(2,3,4,7) pre by blast
  qed
  show ?case
  proof (cases "score c")
    case (Inl e)
    with Cons.prems have "contamination_loop score cs (Some b, s, m) = (bc, bs, m')" by simp
    from Cons.IH [OF this] show ?thesis
    proof
      assume "?alt1 cs b s"
      then have "?alt1 (c # cs) b s" using Inl by simp
      then show ?thesis by (rule disjI1)
    next
      assume "?alt2 cs s"
      then have "?alt2 (c # cs) s" by (rule lift) (simp_all add: Inl)
      then show ?thesis by (rule disjI2)
    qed
  next
    case (Inr v)
    show ?thesis
    proof (cases v)
      case None
      with Inr Cons.prems
      have "contamination_loop score cs (Some b, s, m(c \<mapsto> None)) = (bc, bs, m')" by simp
      from Cons.IH [OF this] show ?thesis
      proof
        assume "?alt1 cs b s"
        then have "?alt1 (c # cs) b s" using Inr None by simp
        then show ?thesis by (rule disjI1)
      next
        assume "?alt2 cs s"
        then have "?alt2 (c # cs) s" by (rule lift) (simp_all add: Inr None)
        then show ?thesis by (rule disjI2)
      qed
    next
      case (Some ms0)
      show ?thesis
      proof (cases "ms0 > s")
        case True
        with Inr Some Cons.prems
        have "contamination_loop score cs (Some c, ms0, m(c \<mapsto> Some ms0)) = (bc, bs, m')" by simp
        from Cons.IH [OF this] have "?alt2 (c # cs) s"
        proof
          assume a: "?alt1 cs c ms0"
          have "c # cs = [] @ c # cs" by simp
          moreover have "\<forall>x\<in>set []. \<forall>ms'. score x = Inr (Some ms') \<longrightarrow> ms' < ms0" by simp
          ultimately show ?thesis using a True Inr Some by blast
        next
          assume "?alt2 cs ms0"
          then show ?thesis
            by (rule lift) (use True Inr Some in simp_all)
        qed
        then show ?thesis by (rule disjI2)
      next
        case False
        with Inr Some Cons.prems
        have "contamination_loop score cs (Some b, s, m(c \<mapsto> Some ms0)) = (bc, bs, m')" by simp
        from Cons.IH [OF this] show ?thesis
        proof
          assume "?alt1 cs b s"
          then have "?alt1 (c # cs) b s" using Inr Some False by simp
          then show ?thesis by (rule disjI1)
        next
          assume "?alt2 cs s"
          then have "?alt2 (c # cs) s"
            by (rule lift) (use False Inr Some in simp_all)
          then show ?thesis by (rule disjI2)
        qed
      qed
    qed
  qed
qed

lemma contamination_loop_step:
  "\<exists>b' s'. contamination_loop score (c # cs) (b, s, m)
     = contamination_loop score cs
         (b', s', case score c of Inl e \<Rightarrow> m | Inr v \<Rightarrow> m(c \<mapsto> v))"
  by (cases "score c") (auto split: option.splits)

lemma contamination_loop_scores:
  "snd (snd (contamination_loop score cs (b, s, m))) x =
     (if x \<in> set cs then (case score x of Inl e \<Rightarrow> m x | Inr v \<Rightarrow> Some v) else m x)"
proof (induction cs arbitrary: b s m)
  case Nil
  then show ?case by simp
next
  case (Cons c cs)
  define m1 where "m1 = (case score c of Inl e \<Rightarrow> m | Inr v \<Rightarrow> m(c \<mapsto> v))"
  from contamination_loop_step [of score c cs b s m] obtain b' s'
    where step: "contamination_loop score (c # cs) (b, s, m) = contamination_loop score cs (b', s', m1)"
    unfolding m1_def by blast
  have m1: "m1 y = (if y = c then (case score c of Inl e \<Rightarrow> m c | Inr v \<Rightarrow> Some v) else m y)" for y
    by (simp add: m1_def split: sum.splits)
  have "snd (snd (contamination_loop score (c # cs) (b, s, m))) x
          = (if x \<in> set cs then (case score x of Inl e \<Rightarrow> m1 x | Inr v \<Rightarrow> Some v) else m1 x)"
    unfolding step by (rule Cons.IH)
  also have "\<dots> = (if x \<in> set (c # cs) then (case score x of Inl e \<Rightarrow> m x | Inr v \<Rightarrow> Some v)
                    else m x)"
    by (auto simp: m1 split: sum.splits)
  finally show ?case .
qed

text \<open>
  Claim C6. \<^verbatim>\<open>tune_contamination_parameter\<close> never raises, and what it returns is fixed
  by the scores of the ten candidates \<open>linspace lo hi 10\<close> alone. A candidate whose
  scoring raises is skipped and the later candidates are still evaluated: the dictionary
  of scores holds exactly the candidates whose scoring did not raise, and when some
  candidate has a mean score above the initial \<^verbatim>\<open>best_score\<close> \<open>0.0\<close>, the contamination
  returned is the first candidate with the greatest mean score, wherever the raising
  candidates stand. If no mean score beats \<open>0.0\<close>, the contamination returned is the
  minimum of the configured range. The contamination returned always lies between the two
  ends of the configured range (within \<open>[lo, hi]\<close> when \<open>lo \<le> hi\<close>).
\<close>

theorem tune_contamination_parameter_fallback:
  "contamination_loop score cs st
     = contamination_loop score (filter (\<lambda>c. \<not> isl (score c)) cs) st
   \<and> ((\<forall>c\<in>set (linspace lo hi 10). \<forall>ms. score c = Inr (Some ms) \<longrightarrow> ms \<le> 0)
        \<longrightarrow> fst (tune_contamination_parameter (lo, hi) score) = lo
            \<and> stats_best_score (snd (tune_contamination_parameter (lo, hi) score)) = 0)
   \<and> ((\<exists>c\<in>set (linspace lo hi 10). \<exists>ms. score c = Inr (Some ms) \<and> 0 < ms)
        \<longrightarrow> (\<exists>pre c post ms.
               linspace lo hi 10 = pre @ c # post
               \<and> fst (tune_contamination_parameter (lo, hi) score) = c
               \<and> stats_best_score (snd (tune_contamination_parameter (lo, hi) score)) = ms
               \<and> score c = Inr (Some ms) \<and> 0 < ms
               \<and> (\<forall>x\<in>set pre. \<forall>ms'. score x = Inr (Some ms') \<longrightarrow> ms' < ms)
               \<and> (\<forall>x\<in>set post. \<forall>ms'. score x = Inr (Some ms') \<longrightarrow> ms' \<le> ms)))
   \<and> (\<forall>x. scores (snd (tune_contamination_parameter (lo, hi) score)) x
            = (if x \<in> set (linspace lo hi 10)
               then (case score x of Inl e \<Rightarrow> None | Inr v \<Rightarrow> Some v) else None))
   \<and> stats_best_contamination (snd (tune_contamination_parameter (lo, hi) score))
       = fst (tune_contamination_parameter (lo, hi) score)
   \<and> contamination_range (snd (tune_contamination_parameter (lo, hi) score)) = (lo, hi)
   \<and> min lo hi \<le> fst (tune_contamination_parameter (lo, hi) score)
   \<and> fst (tune_contamination_parameter (lo, hi) score) \<le> max lo hi
   \<and> (lo \<le> hi \<longrightarrow> lo \<le> fst (tune_contamination_parameter (lo, hi) score)
                   \<and> fst (tune_contamination_parameter (lo, hi) score) \<le> hi)"
proof -
  let ?cs = "linspace lo hi 10"
  let ?t = "tune_contamination_parameter (lo, hi) score"
  obtain bc bs sc where run: "contamination_loop score ?cs (Some lo, 0, Map.empty) = (bc, bs, sc)"
    by (cases "contamination_loop score ?cs (Some lo, 0, Map.empty)")
  from contamination_loop_best [OF run] obtain c
    where bc: "bc = Some c" and c: "c = lo \<or> c \<in> set ?cs" by blast
  have res: "fst ?t = c"
    by (simp add: tune_contamination_parameter_def run bc)
  have bscore: "stats_best_score (snd ?t) = bs"
    by (simp add: tune_contamination_parameter_def run bc)
  have p1: "contamination_loop score cs st
     = contamination_loop score (filter (\<lambda>c. \<not> isl (score c)) cs) st"
    by (rule contamination_loop_skips)
  have p2: "(\<forall>c\<in>set ?cs. \<forall>ms. score c = Inr (Some ms) \<longrightarrow> ms \<le> 0)
        \<longrightarrow> fst ?t = lo \<and> stats_best_score (snd ?t) = 0"
  proof
    assume a: "\<forall>c\<in>set ?cs. \<forall>ms. score c = Inr (Some ms) \<longrightarrow> ms \<le> 0"
    from contamination_loop_never_beaten(1) [OF a, of "Some lo" Map.empty]
    have "bc = Some lo" by (simp add: run)
    moreover from contamination_loop_never_beaten(2) [OF a, of "Some lo" Map.empty]
    have "bs = 0" by (simp add: run)
    ultimately show "fst ?t = lo \<and> stats_best_score (snd ?t) = 0"
      using bc res bscore by simp
  qed
  have p3: "(\<exists>c\<in>set ?cs. \<exists>ms. score c = Inr (Some ms) \<and> 0 < ms)
        \<longrightarrow> (\<exists>pre c post ms.
               ?cs = pre @ c # post \<and> fst ?t = c \<and> stats_best_score (snd ?t) = ms
               \<and> score c = Inr (Some ms) \<and> 0 < ms
               \<and> (\<forall>x\<in>set pre. \<forall>ms'. score x = Inr (Some ms') \<longrightarrow> ms' < ms)
               \<and> (\<forall>x\<in>set post. \<forall>ms'. score x = Inr (Some ms') \<longrightarrow> ms' \<le> ms))"
  proof
    assume "\<exists>c\<in>set ?cs. \<exists>ms. score c = Inr (Some ms) \<and> 0 < ms"
    then have not1: "\<not> (\<forall>c\<in>set ?cs. \<forall>ms. score c = Inr (Some ms) \<longrightarrow> ms \<le> 0)"
      by fastforce
    from contamination_loop_first_best [OF run] not1
    obtain pre x post ms where "?cs = pre @ x # post" "bc = Some x" "bs = ms"
      "score x = Inr (Some ms)" "0 < ms"
      "\<forall>y\<in>set pre. \<forall>ms'. score y = Inr (Some ms') \<longrightarrow> ms' < ms"
      "\<forall>y\<in>set post. \<forall>ms'. score y = Inr (Some ms') \<longrightarrow> ms' \<le> ms"
      by blast
    then show "\<exists>pre c post ms.
               ?cs = pre @ c # post \<and> fst ?t = c \<and> stats_best_score (snd ?t) = ms
               \<and> score c = Inr (Some ms) \<and> 0 < ms
               \<and> (\<forall>x\<in>set pre. \<forall>ms'. score x = Inr (Some ms') \<longrightarrow> ms' < ms)
               \<and> (\<forall>x\<in>set post. \<forall>ms'. score x = Inr (Some ms') \<longrightarrow> ms' \<le> ms)"
      unfolding res bscore bc by blast
  qed
  have p4: "\<forall>x. scores (snd ?t) x
            = (if x \<in> set ?cs then (case score x of Inl e \<Rightarrow> None | Inr v \<Rightarrow> Some v) else None)"
  proof
    fix x
    have "scores (snd ?t) x = sc x"
      by (simp add: tune_contamination_parameter_def run bc)
    also have "sc x = snd (snd (contamination_loop score ?cs (Some lo, 0, Map.empty))) x"
      by (simp add: run)
    also have "\<dots> = (if x \<in> set ?cs then (case score x of Inl e \<Rightarrow> None | Inr v \<Rightarrow> Some v)
                      else None)"
      by (rule contamination_loop_scores)
    finally show "scores (snd ?t) x
            = (if x \<in> set ?cs then (case score x of Inl e \<Rightarrow> None | Inr v \<Rightarrow> Some v) else None)" .
  qed
  have p5: "stats_best_contamination (snd ?t) = fst ?t"
    and p6: "contamination_range (snd ?t) = (lo, hi)"
    by (simp_all add: tune_contamination_parameter_def run bc)
  have between: "min lo hi \<le> c \<and> c \<le> max lo hi"
    using c linspace_between [of c lo hi] by auto
  then have p7: "min lo hi \<le> fst ?t" and p8: "fst ?t \<le> max lo hi"
    and p9: "lo \<le> hi \<longrightarrow> lo \<le> fst ?t \<and> fst ?t \<le> hi"
    unfolding res by auto
  show ?thesis
    by (intro conjI p1 p2 p3 p4 p5 p6 p7 p8 p9)
qed

text \<open>
  Two runs for C6 on the range \<open>(1/100, 1/10)\<close>. With a scoring that raises for the
  candidates up to \<open>1/20\<close> and is negative for the others, nothing beats \<open>0.0\<close> and the
  minimum \<open>1/100\<close> is returned. With a scoring that raises for the first nine candidates
  and is \<open>1\<close> for the last, the last candidate \<open>1/10\<close> is returned, with its score
  recorded and none for the first.
\<close>

theorem tune_contamination_parameter_fallback_witness:
  "list_all (\<lambda>c. \<forall>ms. failing_then_negative c = Inr (Some ms) \<longrightarrow> ms \<le> 0)
     (linspace (1 / 100) (1 / 10) 10)
   \<and> (1 / 100 :: real) \<le> 1 / 10
   \<and> fst (tune_contamination_parameter (1 / 100, 1 / 10) failing_then_negative) = 1 / 100
   \<and> contamination_loop failing_then_negative [1 / 100, 1 / 10] (Some (1 / 100), 0, Map.empty)
       = contamination_loop failing_then_negative [1 / 10] (Some (1 / 100), 0, Map.empty)
   \<and> list_ex (\<lambda>c. \<exists>ms. only_last_scores c = Inr (Some ms) \<and> 0 < ms)
       (linspace (1 / 100) (1 / 10) 10)
   \<and> fst (tune_contamination_parameter (1 / 100, 1 / 10) only_last_scores) = 1 / 10
   \<and> stats_best_score (snd (tune_contamination_parameter (1 / 100, 1 / 10) only_last_scores)) = 1
   \<and> scores (snd (tune_contamination_parameter (1 / 100, 1 / 10) only_last_scores)) (1 / 10)
       = Some (Some 1)
   \<and> scores (snd (tune_contamination_parameter (1 / 100, 1 / 10) only_last_scores)) (1 / 100)
       = None"
proof -
  let ?cs = "linspace (1 / 100) (1 / 10) 10"
  have neg: "ms \<le> 0" if "failing_then_negative c = Inr (Some ms)" and "0 \<le> c" for c ms
    using that by (auto simp: failing_then_negative_def split: if_splits)
  have h: "\<forall>c\<in>set ?cs. \<forall>ms. failing_then_negative c = Inr (Some ms) \<longrightarrow> ms \<le> 0"
  proof (intro ballI allI impI)
    fix c ms
    assume "c \<in> set ?cs" and ms: "failing_then_negative c = Inr (Some ms)"
    from linspace_between [OF this(1)] have "0 \<le> c" by simp
    with ms show "ms \<le> 0" by (rule neg)
  qed
  have le: "(1 / 100 :: real) \<le> 1 / 10" by simp
  note neg_run = tune_contamination_parameter_fallback
    [of failing_then_negative "[1 / 100, 1 / 10]" "(Some (1 / 100), 0, Map.empty)" "1 / 100" "1 / 10"]
  from neg_run h
  have r: "fst (tune_contamination_parameter (1 / 100, 1 / 10) failing_then_negative) = 1 / 100"
    by blast
  have "filter (\<lambda>c. \<not> isl (failing_then_negative c)) [1 / 100, 1 / 10] = [1 / 10]"
    by (simp add: failing_then_negative_def)
  with neg_run
  have skip: "contamination_loop failing_then_negative [1 / 100, 1 / 10] (Some (1 / 100), 0, Map.empty)
       = contamination_loop failing_then_negative [1 / 10] (Some (1 / 100), 0, Map.empty)"
    by simp
  have h': "list_all (\<lambda>c. \<forall>ms. failing_then_negative c = Inr (Some ms) \<longrightarrow> ms \<le> 0) ?cs"
    unfolding list_all_iff by (rule h)
  let ?t = "tune_contamination_parameter (1 / 100, 1 / 10) only_last_scores"
  have first: "1 / 100 \<in> set ?cs"
    using linspace_member [of 0 10 "1 / 100" "1 / 10"] by simp
  have last: "1 / 10 \<in> set ?cs"
    using linspace_member [of 9 10 "1 / 100" "1 / 10"] by simp
  have ex: "\<exists>c\<in>set ?cs. \<exists>ms. only_last_scores c = Inr (Some ms) \<and> 0 < ms"
    using last by (intro bexI [of _ "1 / 10"]) (simp_all add: only_last_scores_def)
  note last_run = tune_contamination_parameter_fallback
    [of only_last_scores "[]" "(None, 0, Map.empty)" "1 / 100" "1 / 10"]
  from last_run ex obtain pre c post ms
    where c: "fst ?t = c" and bs: "stats_best_score (snd ?t) = ms"
      and sc: "only_last_scores c = Inr (Some ms)"
    by blast
  from last_run have hi: "fst ?t \<le> max (1 / 100) (1 / 10)" by blast
  from sc have "\<not> c < 1 / 10" and ms: "ms = 1"
    by (auto simp: only_last_scores_def split: if_splits)
  with hi c have r2: "fst ?t = 1 / 10" by simp
  from bs ms have r3: "stats_best_score (snd ?t) = 1" by simp
  from last_run have dict: "\<forall>x. scores (snd ?t) x
            = (if x \<in> set ?cs
               then (case only_last_scores x of Inl e \<Rightarrow> None | Inr v \<Rightarrow> Some v) else None)"
    by blast
  have r4: "scores (snd ?t) (1 / 10) = Some (Some 1)"
    using dict last by (simp add: only_last_scores_def)
  have r5: "scores (snd ?t) (1 / 100) = None"
    using dict first by (simp add: only_last_scores_def)
  have ex': "list_ex (\<lambda>c. \<exists>ms. only_last_scores c = Inr (Some ms) \<and> 0 < ms) ?cs"
    unfolding list_ex_iff by (rule ex)
  show ?thesis
    by (intro conjI h' le r skip ex' r2 r3 r4 r5)
qed

subsection \<open>Feature preparation\<close>
























subsection \<open>Outlier detection\<close>

lemma mask_filter:
  "map fst (filter (\<lambda>(r, out). \<not> out) (zip rs (map h rs))) = filter (\<lambda>r. \<not> h r) rs"
  by (induction rs) simp_all

lemma outlier_loop_frame:
  "\<exists>by_feature'. outlier_loop threshold ((j, column, dt) # cols) (df, by_feature)
     = outlier_loop threshold cols (outlier_step threshold j dt df, by_feature')"
proof -
  have "map fst (filter (\<lambda>(r, out). \<not> out)
          (zip (rows df) (map (is_outlier b) (map (\<lambda>r. cell_at r j) (rows df)))))
        = filter (\<lambda>r. \<not> is_outlier b (cell_at r j)) (rows df)" for b
    using mask_filter [of "rows df" "\<lambda>r. is_outlier b (cell_at r j)"] by (simp add: comp_def)
  then show ?thesis
    by (auto simp: outlier_step_def Let_def)
qed

lemma outlier_step_props:
  "columns (outlier_step threshold j dt df) = columns df"
  "subseq (rows (outlier_step threshold j dt df)) (rows df)"
  "threshold < 3 \<Longrightarrow> outlier_step threshold j dt df = df"
  by (simp_all add: outlier_step_def)

lemma outlier_loop_props:
  assumes "outlier_loop threshold cols (df, by_feature) = (out, by_feature')"
  shows "columns out = columns df" and "subseq (rows out) (rows df)"
    and "threshold < 3 \<Longrightarrow> out = df"
  using assms
proof (induction cols arbitrary: df by_feature)
  case Nil
  { case 1 then show ?case by simp }
  { case 2 then show ?case by simp }
  { case 3 then show ?case by simp }
next
  case (Cons x cols)
  obtain j column dt where x: "x = (j, column, dt)" by (cases x)
  { case 1
    from outlier_loop_frame [of threshold j column dt cols df by_feature] 1 obtain bf
      where "outlier_loop threshold cols (outlier_step threshold j dt df, bf) = (out, by_feature')"
      unfolding x by auto
    from Cons.IH(1) [OF this] show ?case by (simp add: outlier_step_props) }
  { case 2
    from outlier_loop_frame [of threshold j column dt cols df by_feature] 2 obtain bf
      where "outlier_loop threshold cols (outlier_step threshold j dt df, bf) = (out, by_feature')"
      unfolding x by auto
    from Cons.IH(2) [OF this] have "subseq (rows out) (rows (outlier_step threshold j dt df))" .
    then show ?case using outlier_step_props(2) subseq_order.order_trans by blast }
  { case 3
    from outlier_loop_frame [of threshold j column dt cols df by_feature] 3 obtain bf
      where "outlier_loop threshold cols (outlier_step threshold j dt df, bf) = (out, by_feature')"
      unfolding x by auto
    from Cons.IH(3) [OF 3(1) this] show ?case by (simp add: outlier_step_props(3) [OF 3(1)]) }
qed

lemma outlier_loop_foldl:
  "fst (outlier_loop threshold cols (df, by_feature))
     = foldl (\<lambda>d (j, column, dt). outlier_step threshold j dt d) df cols"
proof (induction cols arbitrary: df by_feature)
  case Nil
  then show ?case by simp
next
  case (Cons x cols)
  obtain j column dt where x: "x = (j, column, dt)" by (cases x)
  from outlier_loop_frame [of threshold j column dt cols df by_feature] obtain bf
    where "outlier_loop threshold (x # cols) (df, by_feature)
             = outlier_loop threshold cols (outlier_step threshold j dt df, bf)"
    unfolding x by blast
  then show ?case by (simp add: Cons.IH x)
qed

lemma detect_feature_outliers_empty:
  "rows df = [] \<Longrightarrow> detect_feature_outliers df threshold = Inl ZeroDivisionError"
  by (simp add: detect_feature_outliers_def len_def Let_def split: prod.splits)

lemma detect_feature_outliers_nonempty:
  assumes "rows df \<noteq> []"
  shows "\<exists>out stats. detect_feature_outliers df threshold = Inr (out, stats)
           \<and> columns out = columns df \<and> subseq (rows out) (rows df) \<and> len out \<le> len df
           \<and> (threshold < 3 \<longrightarrow> out = df)
           \<and> out = foldl (\<lambda>d (j, column, dt). outlier_step threshold j dt d) df
                     (zip [0..<length (columns df)] (columns df))
           \<and> total_outliers stats = int (len df) - int (len out)"
proof -
  obtain out bf where run: "outlier_loop threshold (zip [0..<length (columns df)] (columns df))
                 (df, Map.empty) = (out, bf)"
    by (cases "outlier_loop threshold (zip [0..<length (columns df)] (columns df)) (df, Map.empty)")
  note props = outlier_loop_props [OF run]
  have le: "len out \<le> len df"
    using props(2) by (simp add: len_def subseq_same_length list_emb_length)
  from assms have "len df \<noteq> 0" by (simp add: len_def)
  then have "detect_feature_outliers df threshold =
     Inr (out, \<lparr>total_outliers = int (len df) - int (len out), outliers_by_feature = bf,
                 removal_percentage = (real (len df) - real (len out)) / real (len df) * 100\<rparr>)"
    by (simp add: detect_feature_outliers_def run Let_def)
  moreover have "out = foldl (\<lambda>d (j, column, dt). outlier_step threshold j dt d) df
                     (zip [0..<length (columns df)] (columns df))"
    using outlier_loop_foldl [of threshold "zip [0..<length (columns df)] (columns df)" df Map.empty]
    by (simp add: run)
  ultimately show ?thesis using props le by auto
qed

text \<open>
  For a frame with at least one row the function returns: the frame returned has the
  columns of the input and a subsequence of its rows, so never more rows; below the
  threshold \<open>3\<close> it is the input frame; and in general it is the input frame after one
  pass per column, each pass (from \<open>3\<close> on, for a column of dtype int64 or float64)
  dropping the rows whose value lies outside the bounds computed on the rows still there.
\<close>

lemma detect_feature_outliers_durations:
  "fst (projr (detect_feature_outliers durations 3))
     = \<lparr>columns = [(''src_ip'', Object), (''duration'', Float64)],
        rows = [[Str ''a'', Num 3], [Str ''c'', Num 1], [Str ''d'', Num 4], [Str ''e'', Num 2]]\<rparr>"
  "fst (projr (detect_feature_outliers durations 2)) = durations"
  by (simp_all add: detect_feature_outliers_def durations_def upt_rec cell_at_def
      outlier_bounds_def quantile_def Let_def len_def)

text \<open>
  Claim C3 fails on a frame with no rows: for every threshold the function raises
  \<^verbatim>\<open>ZeroDivisionError\<close> (the removal percentage divides by the number of input rows)
  instead of returning the frame, which the claim says it returns with its rows
  unchanged.
\<close>

theorem detect_feature_outliers_no_rows:
  "detect_feature_outliers no_flows 3 = Inl ZeroDivisionError
   \<and> detect_feature_outliers no_flows 1 = Inl ZeroDivisionError"
  by (simp add: detect_feature_outliers_empty no_flows_def)

section \<open>Claims about the explainer\<close>






text \<open>
  The expectations of tests/aegis/test\_xai.py and of section 8 of the specification hold
  of the model.
\<close>

lemma explain_anomaly_tests:
  "explain_anomaly test_manager [(''test_feature'', 14)] 1 = [''test_feature (+2.0'' @ sigma @ '')'']"
  "explain_anomaly test_manager [(''test_feature'', 4)] 1 = [''test_feature (-3.0'' @ sigma @ '')'']"
  "explain_anomaly unit_manager [(''F1'', 10), (''F2'', - 20), (''F3'', 5)] 3
     = [''F2 (-20.0'' @ sigma @ '')'', ''F1 (+10.0'' @ sigma @ '')'', ''F3 (+5.0'' @ sigma @ '')'']"
  "explain_anomaly test_manager [(''other_feature'', 100)] 3 = []"
  "explain_anomaly (test_manager\<lparr>manager_scaler := None\<rparr>) [(''F1'', 10)] 3
     = [''Explanation unavailable (no scaler stats)'']"
  by (simp_all add: explain_anomaly_def unit_manager_def test_manager_def deviations_def
      List.map_filter_def ranked_def format_deviation_def one_decimal_def tenths_def Let_def
      digit_def string_of_nat.simps)



end
